theory Spec2Isabelle
  imports Complex_Main "HOL-Library.AList" "HOL-Library.Sublist"
begin

section \<open>Time and Python helper functions\<close>

text \<open>
  A Python \<open>datetime\<close> has microsecond resolution; it is modelled as the number of
  microseconds since the epoch. A difference of two datetimes is a \<open>timedelta\<close>, again
  a number of microseconds. \<open>total_seconds()\<close> is its value in seconds as a float; the
  code either compares it with a constant or truncates it with \<open>int(...)\<close>, which
  rounds towards zero.
\<close>

type_synonym datetime = int

definition usec_per_sec :: int where
  "usec_per_sec = 1000000"

text \<open>
  \<open>total_seconds()\<close> divides the microseconds by \<open>10**6\<close> with Python's true division
  of integers: the result is the double nearest to the exact quotient, ties going to the
  even significand. For \<open>n > 0\<close> microseconds the double has the exponent \<open>e\<close> with
  \<open>2^52 \<le> n / 10^6 / 2^e < 2^53\<close> and the significand \<open>n / (10^6 * 2^e)\<close> rounded
  to an integer. \<open>bit_length\<close> is Python's \<open>int.bit_length\<close>; \<open>10^6\<close> has 20 bits, so
  the quotient lies between \<open>2^(l-1)\<close> and \<open>2^(l+1)\<close> for \<open>l = bit_length n - 20\<close>.
  A timedelta is below \<open>10^9\<close> days, far from the overflow of a double.
\<close>

fun bit_length :: "nat \<Rightarrow> nat" where
  "bit_length n = (if n = 0 then 0 else Suc (bit_length (n div 2)))"

definition round_half_even :: "nat \<Rightarrow> nat \<Rightarrow> nat" where
  "round_half_even a b =
     (let q = a div b; r = a mod b
      in if 2 * r < b then q
         else if b < 2 * r then q + 1
         else if even q then q else q + 1)"

definition float_exponent :: "nat \<Rightarrow> int" where
  "float_exponent n =
     (let l = int (bit_length n) - 20
      in (if 1000000 * 2 ^ nat l \<le> n * 2 ^ nat (- l) then l else l - 1) - 52)"

text \<open>\<open>int(n / 10**6)\<close> for \<open>n \<ge> 0\<close>: the double of the quotient, truncated.\<close>

definition float_seconds_trunc :: "nat \<Rightarrow> nat" where
  "float_seconds_trunc n =
     (if n = 0 then 0
      else (let e = float_exponent n;
                m = round_half_even (n * 2 ^ nat (- e)) (1000000 * 2 ^ nat e)
            in (m * 2 ^ nat e) div 2 ^ nat (- e)))"

text \<open>
  \<open>int(timedelta.total_seconds())\<close>; the division and the truncation are symmetric in
  the sign.
\<close>

definition int_total_seconds :: "int \<Rightarrow> int" where
  "int_total_seconds d =
     (if 0 \<le> d then int (float_seconds_trunc (nat d))
      else - int (float_seconds_trunc (nat (- d))))"

text \<open>
  The comparisons \<open>total_seconds() > 30\<close> and \<open>> 300\<close>: the constants are doubles and
  the rounding is monotone and far finer than a microsecond there, so the comparison of
  the float agrees with the comparison of the microseconds.
\<close>

definition total_seconds_gt :: "int \<Rightarrow> int \<Rightarrow> bool" where
  "total_seconds_gt d n = (n * usec_per_sec < d)"

text \<open>Truthiness of an \<open>Optional[str]\<close>: \<open>None\<close> and the empty string are false.\<close>

definition truthy :: "string option \<Rightarrow> bool" where
  "truthy s = (case s of None \<Rightarrow> False | Some v \<Rightarrow> v \<noteq> [])"

datatype jval = JStr string | JInt int | JNull

datatype http_error = HTTPException (status_code: int)

section \<open>The call document (models.py, class Call)\<close>

record call =
  call_id :: string
  project_id :: string
  campaign_id :: "string option"
  contact_id :: "string option"
  ai_agent_id :: "string option"
  room_name :: "string option"
  participant_id :: "string option"
  sip_call_id :: "string option"
  call_type :: string
  phone_number :: string
  call_status :: string
  started_at :: datetime
  answered_at :: "datetime option"
  ended_at :: "datetime option"
  duration_seconds :: "int option"
  recording_url :: "string option"
  transcript :: "string option"
  sentiment_score :: "real option"
  call_summary :: "string option"
  key_points :: "string list"
  action_items :: "string list"
  call_outcome :: "string option"
  created_at :: datetime

type_synonym call_store = "string \<rightharpoonup> call"

type_synonym response = "(string \<times> jval) list"

definition terminal_status :: "string \<Rightarrow> bool" where
  "terminal_status s = (s \<in> {''completed'', ''failed'', ''no_answer'', ''transferred''})"

section \<open>Status transition endpoints (api/routes/calls.py)\<close>

text \<open>
  Each endpoint loads the document, raises 404 when it is missing, mutates it and saves
  it. The \<open>_doc\<close> functions are the mutation between the load and the save; the
  endpoint functions thread the store. \<open>now\<close> is the reading of \<open>datetime.utcnow()\<close>.
\<close>

definition start_call_doc :: "call \<Rightarrow> string \<Rightarrow> string option \<Rightarrow> datetime \<Rightarrow> call" where
  "start_call_doc c room pid now =
     c\<lparr>call_status := ''ringing'', room_name := Some room, participant_id := pid,
       started_at := now\<rparr>"

definition start_call ::
  "call_store \<Rightarrow> string \<Rightarrow> string \<Rightarrow> string option \<Rightarrow> datetime
     \<Rightarrow> http_error + (call_store \<times> response)" where
  "start_call store cid room pid now =
     (case store cid of
        None \<Rightarrow> Inl (HTTPException 404)
      | Some c \<Rightarrow>
          Inr (store(cid \<mapsto> start_call_doc c room pid now),
               [(''message'', JStr ''Call started''), (''call_id'', JStr cid),
                (''room_name'', JStr room)]))"

definition answer_call_doc :: "call \<Rightarrow> datetime \<Rightarrow> call" where
  "answer_call_doc c now = c\<lparr>call_status := ''answered'', answered_at := Some now\<rparr>"

definition answer_call ::
  "call_store \<Rightarrow> string \<Rightarrow> datetime \<Rightarrow> http_error + (call_store \<times> response)" where
  "answer_call store cid now =
     (case store cid of
        None \<Rightarrow> Inl (HTTPException 404)
      | Some c \<Rightarrow>
          Inr (store(cid \<mapsto> answer_call_doc c now),
               [(''message'', JStr ''Call answered''), (''call_id'', JStr cid)]))"

definition end_call_doc :: "call \<Rightarrow> string option \<Rightarrow> datetime \<Rightarrow> call" where
  "end_call_doc c outcome now =
     (let c1 = c\<lparr>call_status := ''completed'', ended_at := Some now\<rparr>;
          c2 = (case answered_at c1 of
                  None \<Rightarrow> c1
                | Some a \<Rightarrow> c1\<lparr>duration_seconds := Some (int_total_seconds (now - a))\<rparr>)
      in if truthy outcome then c2\<lparr>call_outcome := outcome\<rparr> else c2)"

definition opt_int :: "int option \<Rightarrow> jval" where
  "opt_int d = (case d of None \<Rightarrow> JNull | Some n \<Rightarrow> JInt n)"

definition end_call ::
  "call_store \<Rightarrow> string \<Rightarrow> string option \<Rightarrow> datetime
     \<Rightarrow> http_error + (call_store \<times> response)" where
  "end_call store cid outcome now =
     (case store cid of
        None \<Rightarrow> Inl (HTTPException 404)
      | Some c \<Rightarrow>
          (let c' = end_call_doc c outcome now
           in Inr (store(cid \<mapsto> c'),
                   [(''message'', JStr ''Call ended''), (''call_id'', JStr cid),
                    (''duration'', opt_int (duration_seconds c'))])))"

definition fail_call_doc :: "call \<Rightarrow> string option \<Rightarrow> datetime \<Rightarrow> call" where
  "fail_call_doc c reason now =
     (let c1 = c\<lparr>call_status := ''failed'', ended_at := Some now\<rparr>
      in case reason of
           None \<Rightarrow> c1
         | Some r \<Rightarrow> if r \<noteq> [] then c1\<lparr>call_outcome := Some (''Failed: '' @ r)\<rparr> else c1)"

definition fail_call ::
  "call_store \<Rightarrow> string \<Rightarrow> string option \<Rightarrow> datetime
     \<Rightarrow> http_error + (call_store \<times> response)" where
  "fail_call store cid reason now =
     (case store cid of
        None \<Rightarrow> Inl (HTTPException 404)
      | Some c \<Rightarrow>
          Inr (store(cid \<mapsto> fail_call_doc c reason now),
               [(''message'', JStr ''Call marked as failed''), (''call_id'', JStr cid)]))"

section \<open>SIP webhook handlers and the no-answer watchdog (api/routes/sip_integration.py)\<close>

text \<open>
  The webhook participant is a JSON object. \<open>participant.get("identity", "")\<close> yields the
  empty string when the key is absent; a value that is not a string has no
  \<open>startswith\<close>, the \<open>AttributeError\<close> is caught by the handler and the call is left
  as it was.
\<close>

definition identity_of :: "(string \<rightharpoonup> jval) \<Rightarrow> jval" where
  "identity_of participant =
     (case participant ''identity'' of None \<Rightarrow> JStr [] | Some v \<Rightarrow> v)"

definition handle_participant_joined :: "call \<Rightarrow> (string \<rightharpoonup> jval) \<Rightarrow> datetime \<Rightarrow> call" where
  "handle_participant_joined c participant now =
     (case identity_of participant of
        JStr s \<Rightarrow>
          if prefix ''customer-'' s
          then c\<lparr>call_status := ''answered'', answered_at := Some now\<rparr>
          else c
      | _ \<Rightarrow> c)"

definition handle_participant_left :: "call \<Rightarrow> (string \<rightharpoonup> jval) \<Rightarrow> datetime \<Rightarrow> call" where
  "handle_participant_left c participant now =
     (case identity_of participant of
        JStr s \<Rightarrow>
          if prefix ''customer-'' s
          then (let c1 = c\<lparr>call_status := ''completed'', ended_at := Some now\<rparr>
                in case answered_at c1 of
                     None \<Rightarrow> c1
                   | Some a \<Rightarrow> c1\<lparr>duration_seconds := Some (int_total_seconds (now - a))\<rparr>)
          else c
      | _ \<Rightarrow> c)"

text \<open>The handlers' condition: the identity is a string with the prefix \<open>customer-\<close>.\<close>

definition customer_identity :: "(string \<rightharpoonup> jval) \<Rightarrow> bool" where
  "customer_identity participant =
     (case identity_of participant of JStr s \<Rightarrow> prefix ''customer-'' s | _ \<Rightarrow> False)"

text \<open>
  \<open>monitor_sip_call\<close>: the loop reads the call every 5 seconds while
  \<open>wait_time < max_wait\<close>. \<open>reads k\<close> is what the \<open>k\<close>-th \<open>Call.get(call_id)\<close> of the
  task returns (other tasks change the document between reads). \<open>monitor_wait\<close> returns
  the final \<open>wait_time\<close> and the number of reads made so far.
\<close>

definition max_wait :: nat where
  "max_wait = 60"

function monitor_wait :: "(nat \<Rightarrow> call option) \<Rightarrow> nat \<Rightarrow> nat \<Rightarrow> nat \<times> nat" where
  "monitor_wait reads wait_time k =
     (if wait_time < max_wait then
        (case reads k of
           None \<Rightarrow> (wait_time, Suc k)
         | Some c \<Rightarrow>
             if call_status c \<in> {''answered'', ''failed'', ''completed''}
             then (wait_time, Suc k)
             else monitor_wait reads (wait_time + 5) (Suc k))
      else (wait_time, k))"
  by pat_completeness auto
termination
  by (relation "measure (\<lambda>(reads, wait_time, k). max_wait - wait_time)")
     (auto simp: max_wait_def)

definition mark_no_answer :: "call option \<Rightarrow> datetime \<Rightarrow> call option" where
  "mark_no_answer r now =
     (case r of
        None \<Rightarrow> None
      | Some c \<Rightarrow>
          if call_status c = ''ringing''
          then Some (c\<lparr>call_status := ''no_answer'', call_outcome := Some ''No answer'',
                       ended_at := Some now\<rparr>)
          else None)"

text \<open>
  The result is the document the watchdog saves (\<open>None\<close>: it saves nothing), the seconds
  it slept and the number of reads it made in the loop.
\<close>

definition monitor_sip_call :: "(nat \<Rightarrow> call option) \<Rightarrow> datetime \<Rightarrow> call option \<times> nat \<times> nat" where
  "monitor_sip_call reads now =
     (case monitor_wait reads 0 0 of
        (wait_time, k) \<Rightarrow>
          if max_wait \<le> wait_time then (mark_no_answer (reads k) now, wait_time, k)
          else (None, wait_time, k))"

section \<open>Agent instances and their registry (api/routes/agent_management.py)\<close>

record agent_instance =
  instance_id :: string
  agent_id :: string
  inst_project_id :: string
  deployment_type :: string
  status :: string
  inst_started_at :: datetime
  process_id :: "int option"
  last_heartbeat :: "datetime option"

record ai_agent =
  ai_id :: string
  ai_project_id :: string
  ai_name :: string
  prompt :: string
  is_active :: bool

record agent_deployment =
  dep_agent_id :: string
  dep_project_id :: string
  dep_deployment_type :: string
  replicas :: int

text \<open>
  \<open>agent_instances\<close> is a Python dict: its entries are kept in insertion order, a new
  key is appended, an existing key keeps its place. It is an association list with
  \<open>AList.update\<close> as the assignment \<open>agent_instances[k] = v\<close>.
\<close>

type_synonym registry = "(string \<times> agent_instance) list"

text \<open>
  The outcome of \<open>os.kill(pid, 0)\<close>: it returns, raises \<open>ProcessLookupError\<close>, or
  raises something else (no permission, a pid out of range).
\<close>

datatype probe = Alive | ProcessLookupError | OtherError

text \<open>
  \<open>update_instance_status\<close> reads the clock twice: \<open>t_hb\<close> for the heartbeat and
  \<open>t_chk\<close> for the age of a starting instance. A process id that is \<open>None\<close> or 0 is
  false in \<open>if instance.process_id\<close>.
\<close>

definition update_instance_status ::
  "agent_instance \<Rightarrow> (int \<Rightarrow> probe) \<Rightarrow> datetime \<Rightarrow> datetime \<Rightarrow> agent_instance" where
  "update_instance_status inst kill0 t_hb t_chk =
     (case process_id inst of
        None \<Rightarrow>
          if status inst \<notin> {''stopped'', ''error''} then inst\<lparr>status := ''error''\<rparr> else inst
      | Some pid \<Rightarrow>
          if pid = 0 then
            (if status inst \<notin> {''stopped'', ''error''} then inst\<lparr>status := ''error''\<rparr>
             else inst)
          else
            (case kill0 pid of
               Alive \<Rightarrow>
                 (let inst1 = inst\<lparr>last_heartbeat := Some t_hb\<rparr>
                  in if status inst1 = ''starting''
                     then (if total_seconds_gt (t_chk - inst_started_at inst1) 30
                           then inst1\<lparr>status := ''running''\<rparr> else inst1)
                     else inst1)
             | ProcessLookupError \<Rightarrow> inst\<lparr>status := ''stopped''\<rparr>
             | OtherError \<Rightarrow> inst\<lparr>status := ''error''\<rparr>))"

text \<open>
  One instance's share of an iteration of \<open>monitor_agent_instances\<close>: the status update,
  then the heartbeat check with a third clock reading \<open>t_now\<close>.
\<close>

definition monitor_instance ::
  "agent_instance \<Rightarrow> (int \<Rightarrow> probe) \<Rightarrow> datetime \<Rightarrow> datetime \<Rightarrow> datetime \<Rightarrow> agent_instance" where
  "monitor_instance inst kill0 t_hb t_chk t_now =
     (let inst1 = update_instance_status inst kill0 t_hb t_chk
      in case last_heartbeat inst1 of
           None \<Rightarrow> inst1
         | Some hb \<Rightarrow>
             if total_seconds_gt (t_now - hb) 300 then inst1\<lparr>status := ''error''\<rparr>
             else inst1)"

text \<open>
  One iteration of the loop of \<open>monitor_agent_instances\<close> (the loop itself never
  returns). \<open>clk k\<close> gives the three clock readings taken while the entry \<open>k\<close> is handled.
\<close>

definition monitor_tick ::
  "registry \<Rightarrow> string \<Rightarrow> (int \<Rightarrow> probe) \<Rightarrow> (string \<Rightarrow> datetime \<times> datetime \<times> datetime)
     \<Rightarrow> registry" where
  "monitor_tick reg a kill0 clk =
     map (\<lambda>(k, inst).
            if agent_id inst = a
            then (case clk k of
                    (t_hb, t_chk, t_now) \<Rightarrow> (k, monitor_instance inst kill0 t_hb t_chk t_now))
            else (k, inst)) reg"

text \<open>
  \<open>get_agent_instances\<close>: the instances of one agent (of all agents when no agent id is
  given), each polled before it is returned. The polled objects are the registry's own.
\<close>

definition selected :: "string option \<Rightarrow> agent_instance \<Rightarrow> bool" where
  "selected a inst =
     (case a of None \<Rightarrow> True | Some x \<Rightarrow> if x \<noteq> [] then agent_id inst = x else True)"

definition get_agent_instances ::
  "registry \<Rightarrow> string option \<Rightarrow> (int \<Rightarrow> probe) \<Rightarrow> (string \<Rightarrow> datetime \<times> datetime)
     \<Rightarrow> registry \<times> agent_instance list" where
  "get_agent_instances reg a kill0 clk =
     (let reg' = map (\<lambda>(k, inst).
                        if selected a inst
                        then (k, update_instance_status inst kill0 (fst (clk k)) (snd (clk k)))
                        else (k, inst)) reg
      in (reg', filter (selected a) (map snd reg')))"

subsection \<open>Deploying an instance\<close>

text \<open>
  What the environment supplies to one deployment: the integer timestamp that goes
  into the instance id, the pid of the spawned process (\<open>None\<close>: \<open>Popen\<close> raised), and
  the two clock readings stored as \<open>started_at\<close> and \<open>last_heartbeat\<close>.
\<close>

record deploy_env =
  env_ts :: int
  env_pid :: "int option"
  env_started :: datetime
  env_heartbeat :: datetime

definition deploy_agent_instance ::
  "string \<Rightarrow> agent_deployment \<Rightarrow> deploy_env \<Rightarrow> agent_instance option" where
  "deploy_agent_instance iid deployment env =
     (case env_pid env of
        None \<Rightarrow> None
      | Some pid \<Rightarrow>
          Some \<lparr>instance_id = iid, agent_id = dep_agent_id deployment,
                inst_project_id = dep_project_id deployment,
                deployment_type = dep_deployment_type deployment,
                status = ''starting'', inst_started_at = env_started env,
                process_id = Some pid, last_heartbeat = Some (env_heartbeat env)\<rparr>)"

text \<open>Python's \<open>str\<close> of an integer, for the f-string that builds the instance id.\<close>

definition digit_char :: "nat \<Rightarrow> char" where
  "digit_char d = ''0123456789'' ! d"

fun str_nat :: "nat \<Rightarrow> string" where
  "str_nat n = (if n < 10 then [digit_char n] else str_nat (n div 10) @ [digit_char (n mod 10)])"

definition str_int :: "int \<Rightarrow> string" where
  "str_int i = (if i < 0 then CHR ''-'' # str_nat (nat (- i)) else str_nat (nat i))"

definition scale_instance_id :: "string \<Rightarrow> int \<Rightarrow> nat \<Rightarrow> string" where
  "scale_instance_id a ts i = a @ ''-scale-'' @ str_int ts @ ''-'' @ str_nat i"

subsection \<open>Scaling\<close>

definition current_instances :: "registry \<Rightarrow> string \<Rightarrow> agent_instance list" where
  "current_instances reg a =
     filter (\<lambda>inst. agent_id inst = a \<and> status inst \<in> {''starting'', ''running''})
       (map snd reg)"

text \<open>
  The loop \<open>for i in range(scale_up_count)\<close>. A failing deployment raises out of the
  loop; the entries stored before it stay in the registry.
\<close>

fun deploy_loop ::
  "string \<Rightarrow> agent_deployment \<Rightarrow> (nat \<Rightarrow> deploy_env) \<Rightarrow> nat list \<Rightarrow> registry
     \<Rightarrow> registry \<times> bool" where
  "deploy_loop a deployment envs [] reg = (reg, True)"
| "deploy_loop a deployment envs (i # is) reg =
     (case deploy_agent_instance (scale_instance_id a (env_ts (envs i)) i) deployment (envs i) of
        None \<Rightarrow> (reg, False)
      | Some inst \<Rightarrow>
          deploy_loop a deployment envs is
            (AList.update (scale_instance_id a (env_ts (envs i)) i) inst reg))"

definition scale_response :: "string \<Rightarrow> int \<Rightarrow> int \<Rightarrow> response" where
  "scale_response a current_count target_replicas =
     [(''agent_id'', JStr a), (''previous_replicas'', JInt current_count),
      (''target_replicas'', JInt target_replicas),
      (''action'', JStr (if target_replicas > current_count then ''scale_up''
                         else if target_replicas < current_count then ''scale_down''
                         else ''no_change''))]"

text \<open>
  The instances chosen for termination: \<open>sorted(current_instances, key=lambda x:
  x.started_at)[:scale_down_count]\<close>. Python's \<open>sorted\<close> is stable, as is \<open>sort_key\<close>.
\<close>

definition instances_to_stop :: "agent_instance list \<Rightarrow> nat \<Rightarrow> agent_instance list" where
  "instances_to_stop current scale_down_count =
     take scale_down_count (sort_key inst_started_at current)"

text \<open>
  \<open>scale_agent\<close> returns the registry, the instance ids handed to
  \<open>background_tasks.add_task(stop_agent_instance, ...)\<close> in order, and the response.
  Every exception raised in its body, the 400 and 404 included, is caught and raised
  again as a 500.
\<close>

definition scale_agent ::
  "registry \<Rightarrow> (string \<rightharpoonup> ai_agent) \<Rightarrow> string \<Rightarrow> int \<Rightarrow> (nat \<Rightarrow> deploy_env)
     \<Rightarrow> registry \<times> string list \<times> (http_error + response)" where
  "scale_agent reg agents a target_replicas envs =
     (if target_replicas < 0 then (reg, [], Inl (HTTPException 500))
      else
        (let current = current_instances reg a;
             current_count = int (length current)
         in if target_replicas > current_count then
              (case agents a of
                 None \<Rightarrow> (reg, [], Inl (HTTPException 500))
               | Some agent \<Rightarrow>
                   (let scale_up_count = nat (target_replicas - current_count);
                        deployment = \<lparr>dep_agent_id = a, dep_project_id = ai_project_id agent,
                                       dep_deployment_type = ''worker'',
                                       replicas = int scale_up_count\<rparr>
                    in case deploy_loop a deployment envs [0..<scale_up_count] reg of
                         (reg', ok) \<Rightarrow>
                           if ok then (reg', [], Inr (scale_response a current_count target_replicas))
                           else (reg', [], Inl (HTTPException 500))))
            else if target_replicas < current_count then
              (let scale_down_count = nat (current_count - target_replicas)
               in (reg, map instance_id (instances_to_stop current scale_down_count),
                   Inr (scale_response a current_count target_replicas)))
            else (reg, [], Inr (scale_response a current_count target_replicas))))"

subsection \<open>Stopping an instance\<close>

text \<open>
  \<open>stop_agent_instance\<close> runs in three stretches separated by sleeps: it marks the
  instance as stopping and signals the process group; five seconds later it sends the
  forced termination and marks the instance as stopped; ten seconds later it removes
  the entry. A signal call that raises anything but \<open>ProcessLookupError\<close> ends the task
  in its handler, and the status stays as it is. The task is taken to hold the
  object that the registry holds under the id.
\<close>

datatype signal_result = Delivered | NoProcess | SignalError

definition stop_mark :: "registry \<Rightarrow> string \<Rightarrow> registry" where
  "stop_mark reg iid =
     (case map_of reg iid of
        None \<Rightarrow> reg
      | Some inst \<Rightarrow> AList.update iid (inst\<lparr>status := ''stopping''\<rparr>) reg)"

definition has_process :: "agent_instance \<Rightarrow> bool" where
  "has_process inst = (case process_id inst of None \<Rightarrow> False | Some pid \<Rightarrow> pid \<noteq> 0)"

definition stop_finish_instance ::
  "agent_instance \<Rightarrow> signal_result \<Rightarrow> signal_result \<Rightarrow> agent_instance" where
  "stop_finish_instance inst term kill =
     (if has_process inst then
        (case term of
           SignalError \<Rightarrow> inst
         | NoProcess \<Rightarrow> inst\<lparr>status := ''stopped''\<rparr>
         | Delivered \<Rightarrow>
             (case kill of
                SignalError \<Rightarrow> inst
              | _ \<Rightarrow> inst\<lparr>status := ''stopped''\<rparr>))
      else inst\<lparr>status := ''stopped''\<rparr>)"

definition stop_evict :: "registry \<Rightarrow> string \<Rightarrow> registry" where
  "stop_evict reg iid = AList.delete iid reg"

text \<open>
  The operations that act on an instance that is already in the registry, as steps on
  that instance: a health poll, a monitor iteration, and the two status writes of a stop.
\<close>

datatype supervisor_op =
    PollHealth probe datetime datetime
  | MonitorTick probe datetime datetime datetime
  | StopMark
  | StopFinish signal_result signal_result

fun apply_op :: "agent_instance \<Rightarrow> supervisor_op \<Rightarrow> agent_instance" where
  "apply_op inst (PollHealth p t_hb t_chk) = update_instance_status inst (\<lambda>pid. p) t_hb t_chk"
| "apply_op inst (MonitorTick p t_hb t_chk t_now) =
     monitor_instance inst (\<lambda>pid. p) t_hb t_chk t_now"
| "apply_op inst StopMark = inst\<lparr>status := ''stopping''\<rparr>"
| "apply_op inst (StopFinish term kill) = stop_finish_instance inst term kill"

definition run_ops :: "agent_instance \<Rightarrow> supervisor_op list \<Rightarrow> agent_instance" where
  "run_ops inst ops = foldl apply_op inst ops"

subsection \<open>Notions used to state the scaling properties\<close>

text \<open>
  The registry as the code builds it: the keys are pairwise different (it is a dict) and
  every instance is stored under its own id.
\<close>

definition registry_ok :: "registry \<Rightarrow> bool" where
  "registry_ok reg =
     (distinct (map fst reg) \<and> list_all (\<lambda>(k, inst). instance_id inst = k) reg)"

text \<open>Every starting or running instance of the agent has a process that answers the probe.\<close>

definition live :: "registry \<Rightarrow> string \<Rightarrow> (int \<Rightarrow> probe) \<Rightarrow> bool" where
  "live reg a kill0 =
     list_all (\<lambda>inst. case process_id inst of
                         None \<Rightarrow> False
                       | Some pid \<Rightarrow> pid \<noteq> 0 \<and> kill0 pid = Alive)
       (current_instances reg a)"

text \<open>
  The number of entries of \<open>get_agent_instances(agent_id)\<close> whose status is starting or
  running.
\<close>

definition listed_active ::
  "registry \<Rightarrow> string \<Rightarrow> (int \<Rightarrow> probe) \<Rightarrow> (string \<Rightarrow> datetime \<times> datetime) \<Rightarrow> nat" where
  "listed_active reg a kill0 clk =
     length (filter (\<lambda>inst. status inst \<in> {''starting'', ''running''})
               (snd (get_agent_instances reg (Some a) kill0 clk)))"

text \<open>
  The deployments of a scale-up succeed and their processes answer the probe, and the
  ids they are given are not yet keys of the registry.
\<close>

definition deploys_ok ::
  "registry \<Rightarrow> string \<Rightarrow> (nat \<Rightarrow> deploy_env) \<Rightarrow> (int \<Rightarrow> probe) \<Rightarrow> nat \<Rightarrow> bool" where
  "deploys_ok reg a envs kill0 n =
     list_all (\<lambda>i. scale_instance_id a (env_ts (envs i)) i \<notin> fst ` set reg
                  \<and> (case env_pid (envs i) of
                        None \<Rightarrow> False
                      | Some pid \<Rightarrow> pid \<noteq> 0 \<and> kill0 pid = Alive))
       [0..<n]"

text \<open>The registry entry that the \<open>i\<close>-th deployment of a scale-up stores.\<close>

definition new_entry ::
  "string \<Rightarrow> agent_deployment \<Rightarrow> (nat \<Rightarrow> deploy_env) \<Rightarrow> nat \<Rightarrow> string \<times> agent_instance" where
  "new_entry a deployment envs i =
     (scale_instance_id a (env_ts (envs i)) i,
      \<lparr>instance_id = scale_instance_id a (env_ts (envs i)) i,
       agent_id = dep_agent_id deployment, inst_project_id = dep_project_id deployment,
       deployment_type = dep_deployment_type deployment, status = ''starting'',
       inst_started_at = env_started (envs i), process_id = env_pid (envs i),
       last_heartbeat = Some (env_heartbeat (envs i))\<rparr>)"

section \<open>The job router (agent_worker.py, class AgentWorkerManager)\<close>

text \<open>
  The routing view of an agent: one entry of \<open>active_agents\<close>, keyed by the room name.
\<close>

record routing_entry =
  r_agent_id :: string
  r_project_id :: string
  r_room_name :: string
  participant_count :: int
  r_started_at :: datetime
  r_status :: string

text \<open>
  The metadata of a room is text: the repository creates its rooms with a JSON string
  (\<open>json.dumps\<close> in calls.py and sip_integration.py, an f-string in agent_worker.py).
  \<open>route_job\<close> does not parse it: it takes \<open>job_request.room.metadata or {}\<close>, which
  replaces a missing or empty metadata by the empty dictionary, and calls
  \<open>metadata.get(key)\<close> on the result. On a non-empty string this raises
  \<open>AttributeError\<close>. Only a caller that passes a dictionary gets the lookups; its
  values are strings, and an absent key and a null value both read as \<open>None\<close>.
\<close>

datatype room_metadata =
    NoMetadata
  | MetadataText string
  | MetadataDict "string \<rightharpoonup> string"

datatype py_error = AttributeError

definition metadata_of :: "room_metadata \<Rightarrow> py_error + (string \<rightharpoonup> string)" where
  "metadata_of m =
     (case m of
        NoMetadata \<Rightarrow> Inr Map.empty
      | MetadataText s \<Rightarrow> if s = [] then Inr Map.empty else Inl AttributeError
      | MetadataDict d \<Rightarrow> Inr d)"

definition update_call_status ::
  "call_store \<Rightarrow> string \<Rightarrow> string \<Rightarrow> string option \<Rightarrow> call_store" where
  "update_call_status calls cid st room =
     (case calls cid of
        None \<Rightarrow> calls
      | Some c \<Rightarrow>
          (let c1 = c\<lparr>call_status := st\<rparr>
           in calls(cid \<mapsto> (if truthy room then c1\<lparr>room_name := room\<rparr> else c1))))"

text \<open>
  \<open>route_job\<close>: an exception raised by the metadata lookups is caught by the handler of
  the function, which returns \<open>False\<close>; nothing has been changed by then.
\<close>

definition route_job ::
  "(string \<rightharpoonup> routing_entry) \<Rightarrow> call_store \<Rightarrow> (string \<rightharpoonup> ai_agent) \<Rightarrow> string
     \<Rightarrow> room_metadata \<Rightarrow> datetime
     \<Rightarrow> bool \<times> (string \<rightharpoonup> routing_entry) \<times> call_store" where
  "route_job active_agents calls agents room m now =
     (case metadata_of m of
        Inl e \<Rightarrow> (False, active_agents, calls)
      | Inr metadata \<Rightarrow>
          (let agent_id = metadata ''agent_id'';
               project_id = metadata ''project_id'';
               call_id = metadata ''call_id''
           in case agent_id of
                None \<Rightarrow> (True, active_agents, calls)
              | Some aid \<Rightarrow>
                  if aid = [] then (True, active_agents, calls)
                  else
                    (case agents aid of
                       None \<Rightarrow> (False, active_agents, calls)
                     | Some agent_config \<Rightarrow>
                         if \<not> is_active agent_config then (False, active_agents, calls)
                         else
                           (let calls' =
                                  (case call_id of
                                     None \<Rightarrow> calls
                                   | Some cid \<Rightarrow>
                                       if cid \<noteq> []
                                       then update_call_status calls cid ''agent_assigned''
                                              (Some room)
                                       else calls);
                                entry =
                                  \<lparr>r_agent_id = aid,
                                   r_project_id =
                                     (if truthy project_id then the project_id
                                      else ai_project_id agent_config),
                                   r_room_name = room, participant_count = 0,
                                   r_started_at = now, r_status = ''active''\<rparr>
                            in (True, active_agents(room \<mapsto> entry), calls')))))"

section \<open>Example documents\<close>

definition example_call :: call where
  "example_call =
     \<lparr>call_id = ''c1'', project_id = ''p1'', campaign_id = None, contact_id = None,
      ai_agent_id = Some ''a1'', room_name = None, participant_id = None,
      sip_call_id = None, call_type = ''outbound'', phone_number = ''+15550100'',
      call_status = ''initiated'', started_at = 0, answered_at = None, ended_at = None,
      duration_seconds = None, recording_url = None, transcript = None,
      sentiment_score = None, call_summary = None, key_points = [], action_items = [],
      call_outcome = None, created_at = 0\<rparr>"

definition completed_call :: call where
  "completed_call =
     example_call\<lparr>call_status := ''completed'', answered_at := Some 58000000,
       ended_at := Some 100000000, duration_seconds := Some 42,
       call_outcome := Some ''resolved''\<rparr>"

definition ringing_call :: call where
  "ringing_call = example_call\<lparr>call_status := ''ringing'', room_name := Some ''sip-call-c1''\<rparr>"

definition example_instance :: agent_instance where
  "example_instance =
     \<lparr>instance_id = ''a1-1700000000-0'', agent_id = ''a1'', inst_project_id = ''p1'',
      deployment_type = ''worker'', status = ''running'', inst_started_at = 0,
      process_id = Some 4242, last_heartbeat = Some 0\<rparr>"

definition instance_at :: "string \<Rightarrow> datetime \<Rightarrow> agent_instance" where
  "instance_at iid t = example_instance\<lparr>instance_id := iid, inst_started_at := t\<rparr>"

definition example_registry :: registry where
  "example_registry =
     [(''i3'', instance_at ''i3'' 30000000), (''i1'', instance_at ''i1'' 10000000),
      (''i2'', instance_at ''i2'' 20000000)]"

definition example_agent :: ai_agent where
  "example_agent =
     \<lparr>ai_id = ''a1'', ai_project_id = ''p1'', ai_name = ''Support'', prompt = ''Be helpful'',
      is_active = True\<rparr>"


text \<open>The room metadata that \<open>initiate_outbound_call\<close> of agent_worker.py writes.\<close>

definition example_metadata_text :: string where
  \<open>example_metadata_text = ''{"agent_id": "a1", "project_id": "p1", "call_id": "c1"}''\<close>

definition example_envs :: "nat \<Rightarrow> deploy_env" where
  "example_envs i =
     \<lparr>env_ts = 1700000100, env_pid = Some (5000 + int i), env_started = 100000000,
      env_heartbeat = 100000000\<rparr>"

section \<open>Properties of the call state machine\<close>

text \<open>
  The float of \<open>total_seconds()\<close>. Below \<open>2^34\<close> seconds (about 544 years) the double is
  fine enough: its exponent is at most \<open>-19\<close>, half a unit in the last place is below
  half a microsecond, and the truncation of the rounded quotient is the floor of the
  exact one.
\<close>

declare bit_length.simps [simp del]

lemma bit_length_lower: "0 < n \<Longrightarrow> 2 ^ (bit_length n - 1) \<le> n"
proof (induction n rule: bit_length.induct)
  case (1 n)
  show ?case
  proof (cases "n div 2 = 0")
    case True
    then have "bit_length n = 1"
      using "1.prems" by (simp add: bit_length.simps [of n] bit_length.simps [of 0])
    then show ?thesis using "1.prems" by simp
  next
    case False
    then have ih: "2 ^ (bit_length (n div 2) - 1) \<le> n div 2"
      using "1.IH" "1.prems" by simp
    have pos: "0 < bit_length (n div 2)"
      using False by (simp add: bit_length.simps [of "n div 2"])
    have "bit_length n - 1 = Suc (bit_length (n div 2) - 1)"
      using "1.prems" pos by (simp add: bit_length.simps [of n])
    then have "(2::nat) ^ (bit_length n - 1) = 2 * 2 ^ (bit_length (n div 2) - 1)"
      by simp
    also have "\<dots> \<le> 2 * (n div 2)" using ih by simp
    also have "\<dots> \<le> n" by simp
    finally show ?thesis .
  qed
qed

lemma bit_length_le: "0 < n \<Longrightarrow> n < 2 ^ k \<Longrightarrow> bit_length n \<le> k"
proof -
  assume n: "0 < n" "n < 2 ^ k"
  have "(2::nat) ^ (bit_length n - 1) < 2 ^ k"
    using bit_length_lower [OF n(1)] n(2) by (rule le_less_trans)
  then have "bit_length n - 1 < k" by simp
  then show ?thesis by simp
qed

lemma float_exponent_small:
  assumes "0 < n" and "n < 2 ^ 34 * 1000000"
  shows "float_exponent n \<le> - 19"
proof -
  define l where "l = int (bit_length n) - 20"
  have "n < 2 ^ 54" using assms(2) by simp
  then have "bit_length n \<le> 54" using assms(1) by (rule bit_length_le [rotated])
  then have l34: "l \<le> 34" by (simp add: l_def)
  show ?thesis
  proof (cases "1000000 * 2 ^ nat l \<le> n * 2 ^ nat (- l)")
    case False
    then show ?thesis using l34 by (simp add: float_exponent_def Let_def l_def [symmetric])
  next
    case True
    have "l \<noteq> 34"
    proof
      assume "l = 34"
      then have "1000000 * 2 ^ 34 \<le> n" using True by simp
      then show False using assms(2) by simp
    qed
    then show ?thesis using True l34 by (simp add: float_exponent_def Let_def l_def [symmetric])
  qed
qed

lemma round_half_even_bounds:
  assumes "0 < b"
  shows "a div b \<le> round_half_even a b" and "2 * b * round_half_even a b \<le> 2 * a + b"
proof -
  show "a div b \<le> round_half_even a b" by (simp add: round_half_even_def Let_def)
  have a: "a = b * (a div b) + a mod b" by simp
  define q where "q = a div b"
  define r where "r = a mod b"
  have e: "a = b * q + r" using a by (simp add: q_def r_def)
  have "2 * b * round_half_even a b \<le> 2 * (b * q + r) + b"
    unfolding round_half_even_def Let_def q_def [symmetric] r_def [symmetric]
    by (auto simp: algebra_simps)
  then show "2 * b * round_half_even a b \<le> 2 * a + b" using e by simp
qed

lemma round_scaled_div:
  assumes "1000000 < 2 * P"
  shows "round_half_even (n * P) 1000000 div P = n div 1000000"
proof -
  define D :: nat where "D = 1000000"
  define x where "x = n div D"
  define m where "m = round_half_even (n * P) D"
  have D: "0 < D" "D < 2 * P" using assms by (simp_all add: D_def)
  have P: "0 < P" using assms by simp
  have lo: "x * P \<le> m"
  proof -
    have "x * D \<le> n" by (simp add: x_def)
    then have "x * D * P \<le> n * P" by simp
    then have "(x * P) * D \<le> n * P" by (simp add: mult_ac)
    then have "x * P \<le> (n * P) div D"
      using D(1) by (simp add: less_eq_div_iff_mult_less_eq)
    then show ?thesis
      using round_half_even_bounds(1) [OF D(1), of "n * P"] by (simp add: m_def)
  qed
  have hi: "m < (x + 1) * P"
  proof (rule ccontr)
    assume "\<not> m < (x + 1) * P"
    then have "(x + 1) * P \<le> m" by simp
    then have "2 * D * ((x + 1) * P) \<le> 2 * D * m" by simp
    also have "\<dots> \<le> 2 * (n * P) + D"
      using round_half_even_bounds(2) [OF D(1), of "n * P"] by (simp add: m_def)
    finally have 1: "2 * D * ((x + 1) * P) \<le> 2 * (n * P) + D" .
    have "n < D * x + D"
      using D(1) unfolding x_def by (metis add.commute dividend_less_times_div mult.commute)
    then have "n + 1 \<le> D * x + D" by simp
    then have "(n + 1) * (2 * P) \<le> (D * x + D) * (2 * P)" by (rule mult_le_mono1)
    then have 2: "2 * (n * P) + 2 * P \<le> 2 * D * ((x + 1) * P)"
      by (simp add: algebra_simps)
    from 1 2 have "2 * P \<le> D" by simp
    then show False using D(2) by simp
  qed
  have "m div P = x"
    using lo hi P by (intro div_nat_eqI) (simp_all add: mult.commute)
  then show ?thesis by (simp add: m_def x_def D_def)
qed

lemma float_seconds_trunc_small:
  assumes "n < 2 ^ 34 * 1000000"
  shows "float_seconds_trunc n = n div 1000000"
proof (cases "n = 0")
  case True
  then show ?thesis by (simp add: float_seconds_trunc_def)
next
  case False
  define e where "e = float_exponent n"
  have e: "e \<le> - 19" using False assms by (simp add: e_def float_exponent_small)
  then have ne: "nat e = 0" by simp
  have "19 \<le> nat (- e)" using e by simp
  then have "(2::nat) ^ 19 \<le> 2 ^ nat (- e)" by (intro power_increasing) simp_all
  then have big: "1000000 < 2 * (2::nat) ^ nat (- e)" by simp
  have "float_seconds_trunc n
          = round_half_even (n * 2 ^ nat (- e)) 1000000 div 2 ^ nat (- e)"
    using False ne by (simp add: float_seconds_trunc_def Let_def e_def [symmetric])
  then show ?thesis using round_scaled_div [OF big, of n] by simp
qed

lemma int_total_seconds_floor:
  assumes "0 \<le> d" and "d < 2 ^ 34 * 1000000"
  shows "int_total_seconds d = \<lfloor>real_of_int d / 1000000\<rfloor>"
proof -
  have "nat d < 2 ^ 34 * 1000000" using assms by simp
  then have "float_seconds_trunc (nat d) = nat d div 1000000"
    by (rule float_seconds_trunc_small)
  then have "int_total_seconds d = d div 1000000"
    using assms(1) by (simp add: int_total_seconds_def zdiv_int)
  moreover have "\<lfloor>real_of_int d / real_of_int 1000000\<rfloor> = d div 1000000"
    by (rule floor_divide_of_int_eq)
  ultimately show ?thesis by simp
qed



text \<open>
  Below \<open>2^34\<close> seconds between \<open>answered_at\<close> and the clock reading of \<open>end\<close>,
  \<open>end()\<close> sets the status to completed, sets \<open>ended_at\<close> to the clock reading and sets
  \<open>duration_seconds\<close> to the floor of \<open>ended_at - answered_at\<close> in whole seconds; the
  response reports the same duration.
\<close>

lemma end_after_answer_duration:
  assumes "store cid = Some c" and "answered_at c = Some a" and "a \<le> now"
    and "now - a < 2 ^ 34 * 1000000"
  shows "end_call store cid outcome now =
           Inr (store(cid \<mapsto> end_call_doc c outcome now),
                [(''message'', JStr ''Call ended''), (''call_id'', JStr cid),
                 (''duration'', JInt \<lfloor>real_of_int (now - a) / 1000000\<rfloor>)])
         \<and> call_status (end_call_doc c outcome now) = ''completed''
         \<and> ended_at (end_call_doc c outcome now) = Some now
         \<and> duration_seconds (end_call_doc c outcome now)
             = Some \<lfloor>real_of_int (now - a) / 1000000\<rfloor>"
proof -
  have d: "int_total_seconds (now - a) = \<lfloor>real_of_int (now - a) / 1000000\<rfloor>"
    using assms(3,4) by (intro int_total_seconds_floor) simp_all
  have dur: "duration_seconds (end_call_doc c outcome now) = Some (int_total_seconds (now - a))"
    using assms(2) by (simp add: end_call_doc_def Let_def)
  have st: "call_status (end_call_doc c outcome now) = ''completed''"
    by (simp add: end_call_doc_def Let_def split: option.split)
  have en: "ended_at (end_call_doc c outcome now) = Some now"
    by (simp add: end_call_doc_def Let_def split: option.split)
  have ep: "end_call store cid outcome now =
           Inr (store(cid \<mapsto> end_call_doc c outcome now),
                [(''message'', JStr ''Call ended''), (''call_id'', JStr cid),
                 (''duration'', opt_int (duration_seconds (end_call_doc c outcome now)))])"
    using assms(1) by (simp add: end_call_def Let_def)
  show ?thesis using d dur st en ep by (simp add: opt_int_def)
qed

lemma end_after_answer_duration_example:
  "call_status (end_call_doc (answer_call_doc example_call 100000000)
          (Some ''resolved'') 142500000) = ''completed''
   \<and> duration_seconds (end_call_doc (answer_call_doc example_call 100000000)
          (Some ''resolved'') 142500000) = Some 42"
  using end_after_answer_duration
          [of "[''c1'' \<mapsto> answer_call_doc example_call 100000000]" "''c1''"
              "answer_call_doc example_call 100000000" 100000000 142500000
              "Some ''resolved''"]
  by (simp add: answer_call_doc_def)





text \<open>
  C10. On a call whose \<open>answered_at\<close> is unset, \<open>end()\<close> sets the status to completed
  and \<open>ended_at\<close> to the clock reading, stores the outcome when one is given, and changes
  no other field: \<open>duration_seconds\<close> keeps its value (an unset duration stays unset; it
  is neither computed from \<open>started_at\<close> nor defaulted to 0).
\<close>

theorem end_unanswered_frame:
  assumes "store cid = Some c" and "answered_at c = None"
  shows "end_call_doc c outcome now =
           c\<lparr>call_status := ''completed'', ended_at := Some now,
             call_outcome := (if truthy outcome then outcome else call_outcome c)\<rparr>
         \<and> duration_seconds (end_call_doc c outcome now) = duration_seconds c
         \<and> end_call store cid outcome now =
             Inr (store(cid \<mapsto> end_call_doc c outcome now),
                  [(''message'', JStr ''Call ended''), (''call_id'', JStr cid),
                   (''duration'', opt_int (duration_seconds c))])"
  using assms by (simp add: end_call_doc_def end_call_def Let_def)

theorem end_unanswered_frame_witness:
  "[''c1'' \<mapsto> example_call] ''c1'' = Some example_call
   \<and> answered_at example_call = None
   \<and> duration_seconds (end_call_doc example_call None 5000000) = None
   \<and> end_call_doc example_call None 5000000
       = example_call\<lparr>call_status := ''completed'', ended_at := Some 5000000\<rparr>"
  using end_unanswered_frame [of "[''c1'' \<mapsto> example_call]" "''c1''" example_call None 5000000]
  by (simp add: example_call_def truthy_def)

text \<open>
  C1, as stated, fails: a second \<open>end()\<close> on a completed call is answered with the usual
  success message and overwrites \<open>ended_at\<close>, \<open>duration_seconds\<close> and the recorded
  outcome.
\<close>

theorem second_end_overwrites_counterexample:
  "terminal_status (call_status completed_call)
   \<and> end_call [''c1'' \<mapsto> completed_call] ''c1'' (Some ''dropped'') 200000000 =
       Inr ([''c1'' \<mapsto> completed_call\<lparr>ended_at := Some 200000000,
                            duration_seconds := Some 142,
                            call_outcome := Some ''dropped''\<rparr>],
            [(''message'', JStr ''Call ended''), (''call_id'', JStr ''c1''),
             (''duration'', JInt 142)])
   \<and> completed_call\<lparr>ended_at := Some 200000000, duration_seconds := Some 142,
                     call_outcome := Some ''dropped''\<rparr> \<noteq> completed_call"
proof -
  have "int_total_seconds 142000000 = \<lfloor>real_of_int 142000000 / 1000000\<rfloor>"
    by (rule int_total_seconds_floor) simp_all
  then have d: "int_total_seconds 142000000 = 142" by simp
  show ?thesis
    by (simp add: end_call_def end_call_doc_def completed_call_def example_call_def
        terminal_status_def truthy_def d opt_int_def Let_def)
qed

text \<open>
  C1, amended. The endpoints start, answer, end and fail do not look at the current
  status: on a call in a terminal status each of them still succeeds with its usual
  message, sets its own target status and stamps its timestamp with the clock reading.
  Only the watchdog's no-answer step leaves a terminal call alone: it saves nothing
  unless the status it reads is ringing.
\<close>

theorem transitions_ignore_terminal_status:
  assumes "store cid = Some c" and "terminal_status (call_status c)"
  shows "start_call store cid room pid now =
           Inr (store(cid \<mapsto> start_call_doc c room pid now),
                [(''message'', JStr ''Call started''), (''call_id'', JStr cid),
                 (''room_name'', JStr room)])
         \<and> call_status (start_call_doc c room pid now) = ''ringing''
         \<and> started_at (start_call_doc c room pid now) = now
         \<and> answer_call store cid now =
           Inr (store(cid \<mapsto> answer_call_doc c now),
                [(''message'', JStr ''Call answered''), (''call_id'', JStr cid)])
         \<and> call_status (answer_call_doc c now) = ''answered''
         \<and> answered_at (answer_call_doc c now) = Some now
         \<and> end_call store cid outcome now =
           Inr (store(cid \<mapsto> end_call_doc c outcome now),
                [(''message'', JStr ''Call ended''), (''call_id'', JStr cid),
                 (''duration'', opt_int (duration_seconds (end_call_doc c outcome now)))])
         \<and> call_status (end_call_doc c outcome now) = ''completed''
         \<and> ended_at (end_call_doc c outcome now) = Some now
         \<and> fail_call store cid reason now =
           Inr (store(cid \<mapsto> fail_call_doc c reason now),
                [(''message'', JStr ''Call marked as failed''), (''call_id'', JStr cid)])
         \<and> call_status (fail_call_doc c reason now) = ''failed''
         \<and> ended_at (fail_call_doc c reason now) = Some now
         \<and> mark_no_answer (Some c) now = None"
proof -
  have nr: "call_status c \<noteq> ''ringing''"
    using assms(2) by (auto simp: terminal_status_def)
  have s: "call_status (start_call_doc c room pid now) = ''ringing''"
          "started_at (start_call_doc c room pid now) = now"
    by (simp_all add: start_call_doc_def)
  have a: "call_status (answer_call_doc c now) = ''answered''"
          "answered_at (answer_call_doc c now) = Some now"
    by (simp_all add: answer_call_doc_def)
  have e: "call_status (end_call_doc c outcome now) = ''completed''"
          "ended_at (end_call_doc c outcome now) = Some now"
    by (simp_all add: end_call_doc_def Let_def split: option.split)
  have f: "call_status (fail_call_doc c reason now) = ''failed''"
          "ended_at (fail_call_doc c reason now) = Some now"
    by (simp_all add: fail_call_doc_def Let_def split: option.split)
  have m: "mark_no_answer (Some c) now = None"
    using nr by (simp add: mark_no_answer_def)
  have ep: "start_call store cid room pid now =
           Inr (store(cid \<mapsto> start_call_doc c room pid now),
                [(''message'', JStr ''Call started''), (''call_id'', JStr cid),
                 (''room_name'', JStr room)])"
       "answer_call store cid now =
           Inr (store(cid \<mapsto> answer_call_doc c now),
                [(''message'', JStr ''Call answered''), (''call_id'', JStr cid)])"
       "end_call store cid outcome now =
           Inr (store(cid \<mapsto> end_call_doc c outcome now),
                [(''message'', JStr ''Call ended''), (''call_id'', JStr cid),
                 (''duration'', opt_int (duration_seconds (end_call_doc c outcome now)))])"
       "fail_call store cid reason now =
           Inr (store(cid \<mapsto> fail_call_doc c reason now),
                [(''message'', JStr ''Call marked as failed''), (''call_id'', JStr cid)])"
    using assms(1)
    by (simp_all add: start_call_def answer_call_def end_call_def fail_call_def Let_def)
  show ?thesis using s a e f m ep by simp
qed

theorem transitions_ignore_terminal_status_witness:
  "[''c1'' \<mapsto> completed_call] ''c1'' = Some completed_call
   \<and> terminal_status (call_status completed_call)
   \<and> call_status (fail_call_doc completed_call (Some ''late'') 300000000) = ''failed''
   \<and> call_status (start_call_doc completed_call ''room-1'' None 300000000) = ''ringing''
   \<and> mark_no_answer (Some completed_call) 300000000 = None"
  using transitions_ignore_terminal_status
          [of "[''c1'' \<mapsto> completed_call]" "''c1''" completed_call "''room-1''" None
              300000000 None "Some ''late''"]
  by (simp add: completed_call_def example_call_def terminal_status_def)

section \<open>Properties of the SIP webhook handlers and the watchdog\<close>

text \<open>
  C9. A \<open>participant_joined\<close> event moves the call to answered and sets \<open>answered_at\<close>,
  and a \<open>participant_left\<close> event moves it to completed and sets \<open>ended_at\<close> (and the
  duration, when \<open>answered_at\<close> is set), only when the participant identity starts with
  \<open>customer-\<close>; for every other participant both handlers return the call unchanged.
\<close>

theorem customer_prefix_gates_handlers:
  "(customer_identity participant \<longrightarrow>
      handle_participant_joined c participant now
        = c\<lparr>call_status := ''answered'', answered_at := Some now\<rparr>
      \<and> handle_participant_left c participant now
        = c\<lparr>call_status := ''completed'', ended_at := Some now,
            duration_seconds :=
              (case answered_at c of
                 None \<Rightarrow> duration_seconds c
               | Some a \<Rightarrow> Some (int_total_seconds (now - a)))\<rparr>)
   \<and> (\<not> customer_identity participant \<longrightarrow>
      handle_participant_joined c participant now = c
      \<and> handle_participant_left c participant now = c)"
  by (cases "identity_of participant")
     (auto simp: customer_identity_def handle_participant_joined_def
        handle_participant_left_def Let_def split: option.splits)

theorem customer_prefix_gates_handlers_witness:
  "customer_identity [''identity'' \<mapsto> JStr ''customer-c1'']
   \<and> call_status (handle_participant_joined example_call
         [''identity'' \<mapsto> JStr ''customer-c1''] 7000000) = ''answered''
   \<and> \<not> customer_identity [''identity'' \<mapsto> JStr ''agent-7'']
   \<and> handle_participant_left example_call [''identity'' \<mapsto> JStr ''agent-7''] 7000000
       = example_call
   \<and> \<not> customer_identity Map.empty
   \<and> handle_participant_joined example_call Map.empty 7000000 = example_call"
  using customer_prefix_gates_handlers [of "[''identity'' \<mapsto> JStr ''customer-c1'']" example_call 7000000]
        customer_prefix_gates_handlers [of "[''identity'' \<mapsto> JStr ''agent-7'']" example_call 7000000]
        customer_prefix_gates_handlers [of Map.empty example_call 7000000]
  by (simp add: customer_identity_def identity_of_def)

text \<open>The loop of the watchdog, one iteration at a time.\<close>

declare monitor_wait.simps [simp del]

lemma monitor_wait_done:
  "\<not> w < max_wait \<Longrightarrow> monitor_wait reads w k = (w, k)"
  by (simp add: monitor_wait.simps [of reads w k])

lemma monitor_wait_missing:
  "w < max_wait \<Longrightarrow> reads k = None \<Longrightarrow> monitor_wait reads w k = (w, Suc k)"
  by (simp add: monitor_wait.simps [of reads w k])

lemma monitor_wait_stop:
  "w < max_wait \<Longrightarrow> reads k = Some c \<Longrightarrow>
   call_status c \<in> {''answered'', ''failed'', ''completed''} \<Longrightarrow>
   monitor_wait reads w k = (w, Suc k)"
  by (simp add: monitor_wait.simps [of reads w k])

lemma monitor_wait_continue:
  "w < max_wait \<Longrightarrow> reads k = Some c \<Longrightarrow>
   call_status c \<notin> {''answered'', ''failed'', ''completed''} \<Longrightarrow>
   monitor_wait reads w k = monitor_wait reads (w + 5) (Suc k)"
  by (simp add: monitor_wait.simps [of reads w k])

lemma wait_step:
  "Suc n \<le> 12 \<Longrightarrow> 60 - 5 * Suc n < max_wait \<and> 60 - 5 * Suc n + 5 = 60 - 5 * n
     \<and> 60 - 5 * Suc n < 60 \<and> 5 dvd (60 - 5 * Suc n)"
  by (simp add: max_wait_def)

lemma monitor_wait_timeout:
  "n \<le> 12 \<Longrightarrow>
   (\<forall>i<n. \<exists>c. reads (k + i) = Some c
        \<and> call_status c \<notin> {''answered'', ''failed'', ''completed''}) \<Longrightarrow>
   monitor_wait reads (60 - 5 * n) k = (60, k + n)"
proof (induction n arbitrary: k)
  case 0
  show ?case using monitor_wait_done [of 60 reads k] by (simp add: max_wait_def)
next
  case (Suc n)
  from Suc.prems(2) obtain c where c: "reads k = Some c"
      "call_status c \<notin> {''answered'', ''failed'', ''completed''}"
    by (metis add.right_neutral zero_less_Suc)
  have rest: "\<forall>i<n. \<exists>c. reads (Suc k + i) = Some c
        \<and> call_status c \<notin> {''answered'', ''failed'', ''completed''}"
    using Suc.prems(2) by (metis Suc_less_eq add_Suc_right add_Suc)
  have ih: "monitor_wait reads (60 - 5 * n) (Suc k) = (60, Suc k + n)"
    using Suc.IH [of "Suc k"] Suc.prems(1) rest by simp
  note w = wait_step [OF Suc.prems(1)]
  have "monitor_wait reads (60 - 5 * Suc n) k
          = monitor_wait reads (60 - 5 * Suc n + 5) (Suc k)"
    using w c by (intro monitor_wait_continue) blast+
  also have "\<dots> = monitor_wait reads (60 - 5 * n) (Suc k)"
    using w by presburger
  finally show ?case using ih by simp
qed

lemma monitor_wait_bounds:
  "n \<le> 12 \<Longrightarrow> monitor_wait reads (60 - 5 * n) k = (w', k') \<Longrightarrow>
   w' \<le> 60 \<and> 5 dvd w' \<and> k' \<le> k + n \<and> (w' = 60 \<longrightarrow> k' = k + n)"
proof (induction n arbitrary: k)
  case 0
  then show ?case using monitor_wait_done [of 60 reads k] by (simp add: max_wait_def)
next
  case (Suc n)
  note w = wait_step [OF Suc.prems(1)]
  define w0 where "w0 = 60 - 5 * Suc n"
  have w0: "w0 < max_wait" "w0 + 5 = 60 - 5 * n" "w0 < 60" "5 dvd w0"
    using w by (simp_all add: w0_def)
  have eq: "monitor_wait reads w0 k = (w', k')"
    using Suc.prems(2) by (simp add: w0_def)
  show ?case
  proof (cases "reads k")
    case None
    then have "(w', k') = (w0, Suc k)"
      using monitor_wait_missing [of w0 reads k] w0(1) None eq by simp
    then show ?thesis using w0 by auto
  next
    case (Some c)
    show ?thesis
    proof (cases "call_status c \<in> {''answered'', ''failed'', ''completed''}")
      case True
      then have "(w', k') = (w0, Suc k)"
        using monitor_wait_stop [of w0 reads k c] w0(1) Some eq by simp
      then show ?thesis using w0 by auto
    next
      case False
      then have "monitor_wait reads (w0 + 5) (Suc k) = (w', k')"
        using monitor_wait_continue [of w0 reads k c] w0(1) Some eq by simp
      then have "monitor_wait reads (60 - 5 * n) (Suc k) = (w', k')"
        using w0(2) by simp
      then show ?thesis using Suc.IH [of "Suc k"] Suc.prems(1) by simp
    qed
  qed
qed

lemma monitor_wait_break:
  "n \<le> 12 \<Longrightarrow> i < n \<Longrightarrow> reads (k + i) = Some c \<Longrightarrow>
   call_status c \<in> {''answered'', ''failed'', ''completed''} \<Longrightarrow>
   fst (monitor_wait reads (60 - 5 * n) k) < 60"
proof (induction n arbitrary: k i)
  case 0
  then show ?case by simp
next
  case (Suc n)
  note w = wait_step [OF Suc.prems(1)]
  define w0 where "w0 = 60 - 5 * Suc n"
  have w0: "w0 < max_wait" "w0 + 5 = 60 - 5 * n" "w0 < 60"
    using w by (simp_all add: w0_def)
  have "fst (monitor_wait reads w0 k) < 60"
  proof (cases "reads k")
    case None
    then show ?thesis using monitor_wait_missing [of w0 reads k] None w0(1,3) by simp
  next
    case (Some d)
    show ?thesis
    proof (cases "call_status d \<in> {''answered'', ''failed'', ''completed''}")
      case True
      then show ?thesis using monitor_wait_stop [of w0 reads k d] w0(1,3) Some by simp
    next
      case False
      then have i0: "i \<noteq> 0" using Suc.prems(3,4) Some by (cases i) auto
      then obtain j where j: "i = Suc j" by (cases i) auto
      have "fst (monitor_wait reads (60 - 5 * n) (Suc k)) < 60"
        using Suc.IH [of j "Suc k"] Suc.prems j by simp
      then show ?thesis using monitor_wait_continue [of w0 reads k d] Some False w0(1,2) by simp
    qed
  qed
  then show ?case by (simp add: w0_def)
qed

text \<open>
  C8. The watchdog sleeps in steps of 5 seconds up to 60 seconds and reads the call at most
  12 times in its loop. If every read finds the call in a status other than answered,
  failed or completed and the read at the timeout finds it ringing, the watchdog saves it
  with status \<open>no_answer\<close>, outcome "No answer" and \<open>ended_at\<close> set. If some read before
  the timeout finds the call answered, failed or completed, or the read at the timeout
  does not find it ringing, the watchdog saves nothing.
\<close>

theorem watchdog_no_answer:
  "(case monitor_sip_call reads now of
      (saved, waited, polls) \<Rightarrow>
        waited \<le> 60 \<and> 5 dvd waited \<and> polls \<le> 12
        \<and> (saved \<noteq> None \<longrightarrow> waited = 60 \<and> polls = 12))
   \<and> ((\<forall>i<12. \<exists>d. reads i = Some d
            \<and> call_status d \<notin> {''answered'', ''failed'', ''completed''})
        \<and> reads 12 = Some c \<and> call_status c = ''ringing''
       \<longrightarrow> monitor_sip_call reads now =
             (Some (c\<lparr>call_status := ''no_answer'', call_outcome := Some ''No answer'',
                      ended_at := Some now\<rparr>), 60, 12))
   \<and> ((\<exists>i<12. \<exists>d. reads i = Some d
            \<and> call_status d \<in> {''answered'', ''failed'', ''completed''})
       \<longrightarrow> fst (monitor_sip_call reads now) = None)
   \<and> ((\<forall>d. reads 12 = Some d \<longrightarrow> call_status d \<noteq> ''ringing'')
       \<longrightarrow> fst (monitor_sip_call reads now) = None)"
proof -
  obtain w k where wk: "monitor_wait reads 0 0 = (w, k)" by (cases "monitor_wait reads 0 0")
  have b: "w \<le> 60 \<and> 5 dvd w \<and> k \<le> 12 \<and> (w = 60 \<longrightarrow> k = 12)"
    using monitor_wait_bounds [of 12 reads 0 w k] wk by simp
  have p1: "case monitor_sip_call reads now of
      (saved, waited, polls) \<Rightarrow>
        waited \<le> 60 \<and> 5 dvd waited \<and> polls \<le> 12
        \<and> (saved \<noteq> None \<longrightarrow> waited = 60 \<and> polls = 12)"
    using b wk by (auto simp: monitor_sip_call_def max_wait_def)
  have p2: "(\<forall>i<12. \<exists>d. reads i = Some d
            \<and> call_status d \<notin> {''answered'', ''failed'', ''completed''})
        \<and> reads 12 = Some c \<and> call_status c = ''ringing''
       \<longrightarrow> monitor_sip_call reads now =
             (Some (c\<lparr>call_status := ''no_answer'', call_outcome := Some ''No answer'',
                      ended_at := Some now\<rparr>), 60, 12)"
  proof
    assume a: "(\<forall>i<12. \<exists>d. reads i = Some d
            \<and> call_status d \<notin> {''answered'', ''failed'', ''completed''})
        \<and> reads 12 = Some c \<and> call_status c = ''ringing''"
    then have "monitor_wait reads 0 0 = (60, 12)"
      using monitor_wait_timeout [of 12 reads 0] by simp
    then show "monitor_sip_call reads now =
             (Some (c\<lparr>call_status := ''no_answer'', call_outcome := Some ''No answer'',
                      ended_at := Some now\<rparr>), 60, 12)"
      using a by (simp add: monitor_sip_call_def max_wait_def mark_no_answer_def)
  qed
  have p3: "(\<exists>i<12. \<exists>d. reads i = Some d
            \<and> call_status d \<in> {''answered'', ''failed'', ''completed''})
       \<longrightarrow> fst (monitor_sip_call reads now) = None"
  proof
    assume "\<exists>i<12. \<exists>d. reads i = Some d
            \<and> call_status d \<in> {''answered'', ''failed'', ''completed''}"
    then obtain i d where "i < 12" "reads i = Some d"
        "call_status d \<in> {''answered'', ''failed'', ''completed''}" by blast
    then have "fst (monitor_wait reads 0 0) < 60"
      using monitor_wait_break [of 12 i reads 0 d] by simp
    then show "fst (monitor_sip_call reads now) = None"
      using wk by (simp add: monitor_sip_call_def max_wait_def)
  qed
  have p4: "(\<forall>d. reads 12 = Some d \<longrightarrow> call_status d \<noteq> ''ringing'')
       \<longrightarrow> fst (monitor_sip_call reads now) = None"
    using b wk
    by (auto simp: monitor_sip_call_def max_wait_def mark_no_answer_def split: option.splits)
  show ?thesis using p1 p2 p3 p4 by blast
qed

theorem watchdog_no_answer_witness:
  "monitor_sip_call (\<lambda>i. Some ringing_call) 60000000 =
     (Some (ringing_call\<lparr>call_status := ''no_answer'', call_outcome := Some ''No answer'',
                      ended_at := Some 60000000\<rparr>), 60, 12)
   \<and> fst (monitor_sip_call
        (\<lambda>i. if i < 3 then Some ringing_call
             else Some (ringing_call\<lparr>call_status := ''answered''\<rparr>)) 60000000) = None"
  using watchdog_no_answer [of "\<lambda>i. Some ringing_call" 60000000 ringing_call]
        watchdog_no_answer [of "\<lambda>i. if i < 3 then Some ringing_call
             else Some (ringing_call\<lparr>call_status := ''answered''\<rparr>)" 60000000 ringing_call]
  by (simp add: ringing_call_def example_call_def)

section \<open>Properties of the instance supervisor\<close>

text \<open>What a single supervisor step can do to the status of an instance.\<close>

lemma apply_op_starting:
  "status (apply_op inst op) = ''starting'' \<Longrightarrow> status inst = ''starting''"
  by (cases op)
     (auto simp: update_instance_status_def monitor_instance_def stop_finish_instance_def
        Let_def split: option.splits probe.splits if_splits signal_result.splits)

lemma run_ops_starting:
  "status (run_ops inst ops) = ''starting'' \<Longrightarrow> status inst = ''starting''"
  unfolding run_ops_def
proof (induction ops arbitrary: inst)
  case Nil
  then show ?case by simp
next
  case (Cons op ops)
  then have "status (apply_op inst op) = ''starting''" by simp
  then show ?case by (rule apply_op_starting)
qed

lemma apply_op_running:
  "status (apply_op inst op) = ''running'' \<Longrightarrow>
   status inst = ''starting'' \<or> status inst = ''running''"
  by (cases op)
     (auto simp: update_instance_status_def monitor_instance_def stop_finish_instance_def
        Let_def split: option.splits probe.splits if_splits signal_result.splits)

lemma apply_op_target:
  "status (apply_op inst op) \<noteq> status inst \<Longrightarrow>
   status (apply_op inst op) \<in> {''running'', ''stopping'', ''stopped'', ''error''}"
  by (cases op)
     (auto simp: update_instance_status_def monitor_instance_def stop_finish_instance_def
        Let_def split: option.splits probe.splits if_splits signal_result.splits)

text \<open>
  C2, as stated, fails: \<open>error\<close> is not absorbing. A stop moves an instance in status
  \<open>error\<close> to \<open>stopping\<close>, and a health poll that finds its process gone moves it to
  \<open>stopped\<close>.
\<close>

theorem terminal_instance_status_changes_counterexample:
  "status (example_instance\<lparr>status := ''error''\<rparr>) = ''error''
   \<and> status (apply_op (example_instance\<lparr>status := ''error''\<rparr>) StopMark) = ''stopping''
   \<and> status (apply_op (example_instance\<lparr>status := ''error''\<rparr>)
               (PollHealth ProcessLookupError 10000000 10000000)) = ''stopped''"
  by (simp add: example_instance_def update_instance_status_def)

text \<open>
  C2, amended. Health polls, monitor iterations and stops never write the status
  \<open>starting\<close>: an instance that has left \<open>starting\<close> never returns to it under any
  sequence of these operations, so \<open>running\<close> to \<open>starting\<close> cannot happen. A step yields
  \<open>running\<close> only from \<open>starting\<close> or \<open>running\<close>, every status a step writes is one of
  \<open>running\<close>, \<open>stopping\<close>, \<open>stopped\<close>, \<open>error\<close>, and a deployment creates its
  instance in status \<open>starting\<close>. A stop moves an instance from any status to
  \<open>stopping\<close>; its second status write moves the instance to \<open>stopped\<close> whenever it is
  reached, that is unless the instance has a process and a termination signal call
  fails with an error other than "no such process" (the first call, or the second
  after the first was delivered): then the task ends in its handler and the status stays
  as the first write left it, \<open>stopping\<close>.
\<close>

theorem status_never_returns_to_starting:
  "(status inst \<noteq> ''starting'' \<longrightarrow> status (run_ops inst ops) \<noteq> ''starting'')
   \<and> (status (apply_op inst op) = ''running'' \<longrightarrow>
        status inst = ''starting'' \<or> status inst = ''running'')
   \<and> (status (apply_op inst op) \<noteq> status inst \<longrightarrow>
        status (apply_op inst op) \<in> {''running'', ''stopping'', ''stopped'', ''error''})
   \<and> status (apply_op inst StopMark) = ''stopping''
   \<and> status (apply_op (apply_op inst StopMark) (StopFinish Delivered Delivered)) = ''stopped''
   \<and> (deploy_agent_instance iid deployment env = Some new \<longrightarrow> status new = ''starting'')
   \<and> status (apply_op inst (StopFinish sig_term sig_kill))
       = (if has_process inst
             \<and> (sig_term = SignalError \<or> (sig_term = Delivered \<and> sig_kill = SignalError))
          then status inst else ''stopped'')
   \<and> status (apply_op (apply_op inst StopMark) (StopFinish sig_term sig_kill))
       = (if has_process inst
             \<and> (sig_term = SignalError \<or> (sig_term = Delivered \<and> sig_kill = SignalError))
          then ''stopping'' else ''stopped'')"
proof -
  have a: "status inst \<noteq> ''starting'' \<longrightarrow> status (run_ops inst ops) \<noteq> ''starting''"
    using run_ops_starting by blast
  have b: "status (apply_op inst op) = ''running'' \<longrightarrow>
        status inst = ''starting'' \<or> status inst = ''running''"
    using apply_op_running by blast
  have c: "status (apply_op inst op) \<noteq> status inst \<longrightarrow>
        status (apply_op inst op) \<in> {''running'', ''stopping'', ''stopped'', ''error''}"
    using apply_op_target by blast
  have d: "status (apply_op inst StopMark) = ''stopping''" by simp
  have e: "status (apply_op (apply_op inst StopMark) (StopFinish Delivered Delivered)) = ''stopped''"
    by (simp add: stop_finish_instance_def)
  have f: "deploy_agent_instance iid deployment env = Some new \<longrightarrow> status new = ''starting''"
    by (auto simp: deploy_agent_instance_def split: option.splits)
  have g: "status (apply_op inst (StopFinish sig_term sig_kill))
       = (if has_process inst
             \<and> (sig_term = SignalError \<or> (sig_term = Delivered \<and> sig_kill = SignalError))
          then status inst else ''stopped'')"
    by (cases sig_term; cases sig_kill) (simp_all add: stop_finish_instance_def)
  have h: "status (apply_op (apply_op inst StopMark) (StopFinish sig_term sig_kill))
       = (if has_process inst
             \<and> (sig_term = SignalError \<or> (sig_term = Delivered \<and> sig_kill = SignalError))
          then ''stopping'' else ''stopped'')"
    by (cases sig_term; cases sig_kill)
       (simp_all add: stop_finish_instance_def has_process_def)
  show ?thesis using a b c d e f g h by blast
qed

theorem status_never_returns_to_starting_witness:
  "status example_instance \<noteq> ''starting''
   \<and> has_process example_instance
   \<and> status (apply_op (apply_op (example_instance\<lparr>status := ''starting''\<rparr>) StopMark)
         (StopFinish Delivered SignalError)) = ''stopping''
   \<and> status (apply_op (apply_op example_instance StopMark)
         (StopFinish NoProcess Delivered)) = ''stopped''
   \<and> status (run_ops example_instance
        [PollHealth Alive 40000000 40000000, StopMark, StopFinish Delivered Delivered,
         MonitorTick ProcessLookupError 50000000 50000000 50000000]) \<noteq> ''starting''
   \<and> status (apply_op (example_instance\<lparr>status := ''starting''\<rparr>)
         (PollHealth Alive 31000000 31000000)) = ''running''
   \<and> status (apply_op (example_instance\<lparr>status := ''starting''\<rparr>)
         (PollHealth Alive 31000000 31000000))
       \<noteq> status (example_instance\<lparr>status := ''starting''\<rparr>)
   \<and> deploy_agent_instance ''a1-scale-5-0''
        \<lparr>dep_agent_id = ''a1'', dep_project_id = ''p1'', dep_deployment_type = ''worker'',
         replicas = 1\<rparr>
        \<lparr>env_ts = 5, env_pid = Some 77, env_started = 5000000, env_heartbeat = 5000001\<rparr>
       = Some \<lparr>instance_id = ''a1-scale-5-0'', agent_id = ''a1'', inst_project_id = ''p1'',
           deployment_type = ''worker'', status = ''starting'', inst_started_at = 5000000,
           process_id = Some 77, last_heartbeat = Some 5000001\<rparr>"
  using status_never_returns_to_starting
          [of example_instance
              "[PollHealth Alive 40000000 40000000, StopMark, StopFinish Delivered Delivered,
                MonitorTick ProcessLookupError 50000000 50000000 50000000]"
              "PollHealth Alive 31000000 31000000" "''a1-scale-5-0''"
              "\<lparr>dep_agent_id = ''a1'', dep_project_id = ''p1'', dep_deployment_type = ''worker'',
                replicas = 1\<rparr>"
              "\<lparr>env_ts = 5, env_pid = Some 77, env_started = 5000000, env_heartbeat = 5000001\<rparr>"
              _ NoProcess Delivered]
        status_never_returns_to_starting
          [of "example_instance\<lparr>status := ''starting''\<rparr>" "[]"
              "PollHealth Alive 31000000 31000000" "''a1-scale-5-0''"
              "\<lparr>dep_agent_id = ''a1'', dep_project_id = ''p1'', dep_deployment_type = ''worker'',
                replicas = 1\<rparr>"
              "\<lparr>env_ts = 5, env_pid = Some 77, env_started = 5000000, env_heartbeat = 5000001\<rparr>"
              _ Delivered SignalError]
  by (simp add: example_instance_def update_instance_status_def total_seconds_gt_def
        usec_per_sec_def deploy_agent_instance_def has_process_def)

text \<open>
  C4. The claim asks that a running instance with a live process and a heartbeat older
  than 300 seconds be set to \<open>error\<close> by the next poll. The code does not do it: the
  poll of a live process first refreshes the heartbeat, so the status stays \<open>running\<close>,
  and the heartbeat check of the monitor then sees the fresh heartbeat. Here the
  heartbeat is 301 seconds old.
\<close>

theorem stale_heartbeat_not_flagged:
  "status example_instance = ''running''
   \<and> process_id example_instance = Some 4242
   \<and> last_heartbeat example_instance = Some 0
   \<and> total_seconds_gt (301000000 - 0) 300
   \<and> status (update_instance_status example_instance (\<lambda>pid. Alive) 301000000 301000000)
       = ''running''
   \<and> monitor_instance example_instance (\<lambda>pid. Alive) 301000000 301000000 301000000
       = example_instance\<lparr>last_heartbeat := Some 301000000\<rparr>"
  by (simp add: example_instance_def update_instance_status_def monitor_instance_def
        total_seconds_gt_def usec_per_sec_def)

section \<open>Properties of the scaling controller\<close>

text \<open>
  In a list sorted by a key without duplicates, every element of a prefix has a
  smaller key than every element outside the prefix.
\<close>

lemma take_sort_key_oldest:
  assumes "distinct (map f xs)"
    and "x \<in> set (take n (sort_key f xs))"
    and "y \<in> set xs" and "y \<notin> set (take n (sort_key f xs))"
  shows "f x < f y"
proof -
  define s where "s = sort_key f xs"
  have "sorted (map f s)" by (simp add: s_def)
  then have "sorted (map f (take n s @ drop n s))" by (simp only: append_take_drop_id)
  then have srt: "\<forall>u \<in> set (map f (take n s)). \<forall>v \<in> set (map f (drop n s)). u \<le> v"
    by (simp only: map_append sorted_append) blast
  have "y \<in> set s"
    using assms(3) by (simp add: s_def)
  then have "y \<in> set (take n s) \<union> set (drop n s)"
    by (metis append_take_drop_id set_append)
  then have yd: "y \<in> set (drop n s)"
    using assms(4) by (auto simp: s_def)
  have xt: "x \<in> set (take n s)" using assms(2) by (simp add: s_def)
  have le: "f x \<le> f y"
    using srt xt yd by simp
  have xin: "x \<in> set xs"
    using xt by (metis in_set_takeD s_def set_sort)
  have "x \<noteq> y" using assms(2,4) by blast
  then have "f x \<noteq> f y"
    using assms(1,3) xin by (auto simp: distinct_map dest: inj_onD)
  then show ?thesis using le by simp
qed

text \<open>
  C6. When an agent has \<open>k\<close> instances in status starting or running with pairwise
  distinct \<open>started_at\<close> and the target \<open>t\<close> is below \<open>k\<close>, \<open>scale_agent\<close> hands exactly
  \<open>k - t\<close> of them to \<open>stop_agent_instance\<close>, oldest first, and each of them started
  before every instance it keeps. With start times \<open>t1 < t2 < t3\<close> and a scale-down
  of 1 the instance started at \<open>t1\<close> is the one stopped.
\<close>

theorem scale_down_oldest_first:
  assumes "0 \<le> target"
    and "target < int (length (current_instances reg a))"
    and "distinct (map inst_started_at (current_instances reg a))"
  shows "scale_agent reg agents a target envs =
           (reg,
            map instance_id (instances_to_stop (current_instances reg a)
                               (length (current_instances reg a) - nat target)),
            Inr (scale_response a (int (length (current_instances reg a))) target))
         \<and> length (instances_to_stop (current_instances reg a)
                      (length (current_instances reg a) - nat target))
             = length (current_instances reg a) - nat target
         \<and> set (instances_to_stop (current_instances reg a)
                   (length (current_instances reg a) - nat target))
             \<subseteq> set (current_instances reg a)
         \<and> sorted (map inst_started_at
                     (instances_to_stop (current_instances reg a)
                        (length (current_instances reg a) - nat target)))
         \<and> (\<forall>x \<in> set (instances_to_stop (current_instances reg a)
                          (length (current_instances reg a) - nat target)).
              \<forall>y \<in> set (current_instances reg a)
                     - set (instances_to_stop (current_instances reg a)
                              (length (current_instances reg a) - nat target)).
                inst_started_at x < inst_started_at y)"
proof -
  define cur where "cur = current_instances reg a"
  define m where "m = length cur - nat target"
  have n: "nat (int (length cur) - target) = m"
    using assms(1,2) by (simp add: m_def cur_def nat_diff_distrib')
  have sc: "scale_agent reg agents a target envs =
           (reg, map instance_id (instances_to_stop cur m),
            Inr (scale_response a (int (length cur)) target))"
    using assms(1,2) n by (simp add: scale_agent_def Let_def cur_def [symmetric])
  have len: "length (instances_to_stop cur m) = m"
    by (simp add: instances_to_stop_def m_def)
  have sub: "set (instances_to_stop cur m) \<subseteq> set cur"
    by (metis instances_to_stop_def set_sort set_take_subset)
  have srt: "sorted (map inst_started_at (instances_to_stop cur m))"
    by (simp add: instances_to_stop_def take_map [symmetric] sorted_wrt_take)
  have old: "\<forall>x \<in> set (instances_to_stop cur m).
              \<forall>y \<in> set cur - set (instances_to_stop cur m).
                inst_started_at x < inst_started_at y"
    using take_sort_key_oldest [of inst_started_at cur _ m] assms(3)
    by (auto simp: instances_to_stop_def cur_def)
  show ?thesis using sc len sub srt old unfolding cur_def m_def by blast
qed

theorem scale_down_oldest_first_witness:
  "current_instances example_registry ''a1''
     = [instance_at ''i3'' 30000000, instance_at ''i1'' 10000000, instance_at ''i2'' 20000000]
   \<and> distinct (map inst_started_at (current_instances example_registry ''a1''))
   \<and> scale_agent example_registry Map.empty ''a1'' 2 (\<lambda>i. \<lparr>env_ts = 0, env_pid = None,
          env_started = 0, env_heartbeat = 0\<rparr>)
       = (example_registry, [''i1''], Inr (scale_response ''a1'' 3 2))"
proof -
  have cur: "current_instances example_registry ''a1''
     = [instance_at ''i3'' 30000000, instance_at ''i1'' 10000000, instance_at ''i2'' 20000000]"
    by (simp add: current_instances_def example_registry_def instance_at_def
        example_instance_def)
  have d: "distinct (map inst_started_at (current_instances example_registry ''a1''))"
    by (simp add: cur instance_at_def)
  have stop: "map instance_id (instances_to_stop (current_instances example_registry ''a1'')
                (length (current_instances example_registry ''a1'') - nat 2)) = [''i1'']"
    by (simp add: cur instances_to_stop_def instance_at_def)
  show ?thesis
    using scale_down_oldest_first [of 2 example_registry "''a1''" Map.empty
            "\<lambda>i. \<lparr>env_ts = 0, env_pid = None, env_started = 0, env_heartbeat = 0\<rparr>"]
          cur d stop
    by simp
qed

section \<open>Properties of the job router\<close>

text \<open>
  With the metadata given as a dictionary carrying a non-empty \<open>agent_id\<close>: when that
  agent is missing or inactive, \<open>route_job\<close> returns failure and leaves the routing table
  and the calls as they were; when the agent is active, it returns success, stores a
  routing entry under the room name, and, when the metadata carries the \<open>call_id\<close> of a
  stored call, sets that call's status to \<open>agent_assigned\<close> (and its room name).
\<close>

lemma route_job_dict_metadata:
  assumes "metadata ''agent_id'' = Some aid" and "aid \<noteq> []"
  shows "((agents aid = None \<or> (\<exists>cfg. agents aid = Some cfg \<and> \<not> is_active cfg)) \<longrightarrow>
            route_job active_agents calls agents room (MetadataDict metadata) now
              = (False, active_agents, calls))
         \<and> (\<forall>cfg. agents aid = Some cfg \<and> is_active cfg \<longrightarrow>
              route_job active_agents calls agents room (MetadataDict metadata) now =
                (True,
                 active_agents(room \<mapsto>
                   \<lparr>r_agent_id = aid,
                    r_project_id =
                      (case metadata ''project_id'' of
                         None \<Rightarrow> ai_project_id cfg
                       | Some p \<Rightarrow> if p \<noteq> [] then p else ai_project_id cfg),
                    r_room_name = room, participant_count = 0, r_started_at = now,
                    r_status = ''active''\<rparr>),
                 (case metadata ''call_id'' of
                    None \<Rightarrow> calls
                  | Some cid \<Rightarrow>
                      (case calls cid of
                         None \<Rightarrow> calls
                       | Some c \<Rightarrow>
                           if cid \<noteq> []
                           then calls(cid \<mapsto>
                                  c\<lparr>call_status := ''agent_assigned'',
                                    room_name := (if room \<noteq> [] then Some room
                                                  else room_name c)\<rparr>)
                           else calls))))"
  using assms
  by (auto simp: route_job_def metadata_of_def Let_def update_call_status_def truthy_def
      split: option.splits)

text \<open>A non-empty metadata text makes \<open>route_job\<close> fail, whatever it carries.\<close>

lemma route_job_text_metadata:
  "s \<noteq> [] \<Longrightarrow>
   route_job active_agents calls agents room (MetadataText s) now
     = (False, active_agents, calls)"
  by (simp add: route_job_def metadata_of_def)

text \<open>
  C7. The claim asks that a job whose room metadata carries the \<open>agent_id\<close> of an
  active agent be routed: success, a routing entry under the room name, and the call
  set to \<open>agent_assigned\<close>. The code does this only for a dictionary. For the JSON text
  that the repository itself stores as room metadata, here the one written by
  \<open>initiate_outbound_call\<close> for the active agent \<open>a1\<close> and the call \<open>c1\<close>, \<open>route_job\<close>
  returns failure, creates no routing entry and leaves the call as it was; the same
  content as a dictionary is routed.
\<close>

theorem route_job_rejects_json_metadata:
  "example_metadata_text \<noteq> []
   \<and> [''a1'' \<mapsto> example_agent] ''a1'' = Some example_agent
   \<and> is_active example_agent
   \<and> route_job Map.empty [''c1'' \<mapsto> example_call] [''a1'' \<mapsto> example_agent] ''call-c1''
        (MetadataText example_metadata_text) 9000000
       = (False, Map.empty, [''c1'' \<mapsto> example_call])
   \<and> route_job Map.empty [''c1'' \<mapsto> example_call] [''a1'' \<mapsto> example_agent] ''call-c1''
        (MetadataDict [''agent_id'' \<mapsto> ''a1'', ''project_id'' \<mapsto> ''p1'', ''call_id'' \<mapsto> ''c1''])
        9000000
       = (True,
          [''call-c1'' \<mapsto> \<lparr>r_agent_id = ''a1'', r_project_id = ''p1'',
              r_room_name = ''call-c1'', participant_count = 0, r_started_at = 9000000,
              r_status = ''active''\<rparr>],
          [''c1'' \<mapsto> example_call\<lparr>call_status := ''agent_assigned'',
                       room_name := Some ''call-c1''\<rparr>])"
proof -
  have t: "example_metadata_text \<noteq> []" by (simp add: example_metadata_text_def)
  have a: "[''a1'' \<mapsto> example_agent] ''a1'' = Some example_agent" by simp
  have b: "is_active example_agent" by (simp add: example_agent_def)
  have r: "route_job Map.empty [''c1'' \<mapsto> example_call] [''a1'' \<mapsto> example_agent] ''call-c1''
        (MetadataText example_metadata_text) 9000000
       = (False, Map.empty, [''c1'' \<mapsto> example_call])"
    using t by (simp add: route_job_def metadata_of_def)
  have d: "route_job Map.empty [''c1'' \<mapsto> example_call] [''a1'' \<mapsto> example_agent] ''call-c1''
        (MetadataDict [''agent_id'' \<mapsto> ''a1'', ''project_id'' \<mapsto> ''p1'', ''call_id'' \<mapsto> ''c1''])
        9000000
       = (True,
          [''call-c1'' \<mapsto> \<lparr>r_agent_id = ''a1'', r_project_id = ''p1'',
              r_room_name = ''call-c1'', participant_count = 0, r_started_at = 9000000,
              r_status = ''active''\<rparr>],
          [''c1'' \<mapsto> example_call\<lparr>call_status := ''agent_assigned'',
                       room_name := Some ''call-c1''\<rparr>])"
    by (simp add: route_job_def metadata_of_def Let_def update_call_status_def truthy_def
        example_agent_def)
  show ?thesis using t a b r d by simp
qed

subsection \<open>Instance ids\<close>

text \<open>
  The decimal rendering of a number is injective and contains no dash, so two instance
  ids built in one scale-up differ whenever their loop indices differ, whatever the
  timestamps are.
\<close>

declare str_nat.simps [simp del]

lemma digit_char_inj:
  "a < 10 \<Longrightarrow> b < 10 \<Longrightarrow> digit_char a = digit_char b \<Longrightarrow> a = b"
proof -
  assume a: "a < 10" and b: "b < 10" and e: "digit_char a = digit_char b"
  have d: "distinct ''0123456789''" by simp
  have l: "length ''0123456789'' = 10" by simp
  show "a = b"
    using e a b nth_eq_iff_index_eq [OF d, of a b] by (simp only: digit_char_def l)
qed

lemma digit_char_not_dash: "d < 10 \<Longrightarrow> digit_char d \<noteq> CHR ''-''"
proof -
  assume "d < 10"
  then have "digit_char d \<in> set ''0123456789''"
    unfolding digit_char_def by (intro nth_mem) simp
  then show ?thesis by auto
qed

lemma str_nat_no_dash: "CHR ''-'' \<notin> set (str_nat n)"
proof (induction n rule: str_nat.induct)
  case (1 n)
  show ?case
  proof (cases "n < 10")
    case True
    then show ?thesis using digit_char_not_dash [of n] by (simp add: str_nat.simps [of n])
  next
    case False
    have "n mod 10 < 10" by simp
    then show ?thesis
      using False 1 digit_char_not_dash [of "n mod 10"] by (simp add: str_nat.simps [of n])
  qed
qed

lemma str_nat_nonempty: "str_nat n \<noteq> []"
  by (simp add: str_nat.simps [of n])

lemma str_nat_inj: "str_nat n = str_nat m \<Longrightarrow> n = m"
proof (induction n arbitrary: m rule: str_nat.induct)
  case (1 n)
  show ?case
  proof (cases "n < 10")
    case n: True
    show ?thesis
    proof (cases "m < 10")
      case True
      then show ?thesis
        using n "1.prems" digit_char_inj [of n m]
        by (simp add: str_nat.simps [of n] str_nat.simps [of m])
    next
      case False
      then show ?thesis
        using n "1.prems" str_nat_nonempty [of "m div 10"]
        by (simp add: str_nat.simps [of n] str_nat.simps [of m])
    qed
  next
    case n: False
    show ?thesis
    proof (cases "m < 10")
      case True
      then show ?thesis
        using n "1.prems" str_nat_nonempty [of "n div 10"]
        by (simp add: str_nat.simps [of n] str_nat.simps [of m])
    next
      case False
      then have e: "str_nat (n div 10) = str_nat (m div 10)"
          "digit_char (n mod 10) = digit_char (m mod 10)"
        using n "1.prems" by (simp_all add: str_nat.simps [of n] str_nat.simps [of m])
      have "n div 10 = m div 10" using "1.IH" [OF n e(1)] .
      moreover have "n mod 10 = m mod 10"
        using e(2) digit_char_inj [of "n mod 10" "m mod 10"] by simp
      ultimately show ?thesis by (metis div_mult_mod_eq)
    qed
  qed
qed

lemma dash_suffix_unique:
  assumes "CHR ''-'' \<notin> set u" and "CHR ''-'' \<notin> set v"
    and "xs @ CHR ''-'' # u = ys @ CHR ''-'' # v"
  shows "u = v"
  using assms
  by (auto simp: append_eq_append_conv2 append_eq_Cons_conv Cons_eq_append_conv)

lemma scale_instance_id_index:
  "scale_instance_id a ts i = scale_instance_id a ts' j \<Longrightarrow> i = j"
proof -
  assume e: "scale_instance_id a ts i = scale_instance_id a ts' j"
  have "(a @ ''-scale-'' @ str_int ts) @ CHR ''-'' # str_nat i
        = (a @ ''-scale-'' @ str_int ts') @ CHR ''-'' # str_nat j"
    using e by (simp add: scale_instance_id_def)
  then have "str_nat i = str_nat j"
    by (rule dash_suffix_unique [OF str_nat_no_dash str_nat_no_dash])
  then show "i = j" by (rule str_nat_inj)
qed

subsection \<open>Listing after scaling\<close>

text \<open>
  A poll keeps an instance of the agent in, or out of, the statuses starting and running
  as long as the processes of the starting and running ones answer the probe; the
  filtered listing then has as many entries as the registry has starting or running
  instances of the agent.
\<close>

lemma poll_agent_id:
  "agent_id (update_instance_status inst kill0 t1 t2) = agent_id inst"
  by (simp add: update_instance_status_def Let_def split: option.split probe.split)

lemma poll_inactive:
  "status inst \<notin> {''starting'', ''running''} \<Longrightarrow>
   status (update_instance_status inst kill0 t1 t2) \<notin> {''starting'', ''running''}"
  by (simp add: update_instance_status_def Let_def split: option.split probe.split)

lemma poll_active:
  "status inst \<in> {''starting'', ''running''} \<Longrightarrow>
   process_id inst = Some pid \<Longrightarrow> pid \<noteq> 0 \<Longrightarrow> kill0 pid = Alive \<Longrightarrow>
   status (update_instance_status inst kill0 t1 t2) \<in> {''starting'', ''running''}"
  by (auto simp: update_instance_status_def Let_def)

lemma listed_active_count:
  assumes "a \<noteq> []" and "live reg a kill0"
  shows "listed_active reg a kill0 clk = length (current_instances reg a)"
  using assms(2)
proof (induction reg)
  case Nil
  show ?case by (simp add: listed_active_def get_agent_instances_def current_instances_def)
next
  case (Cons e reg)
  obtain k inst where e: "e = (k, inst)" by (cases e)
  have l: "live reg a kill0"
    using Cons.prems by (auto simp: live_def current_instances_def e split: if_splits)
  have ih: "listed_active reg a kill0 clk = length (current_instances reg a)"
    using Cons.IH l by simp
  show ?case
  proof (cases "agent_id inst = a")
    case False
    then show ?thesis
      using ih assms(1)
      by (simp add: listed_active_def get_agent_instances_def current_instances_def e
          selected_def Let_def)
  next
    case True
    show ?thesis
    proof (cases "status inst \<in> {''starting'', ''running''}")
      case False
      then have "status (update_instance_status inst kill0 (fst (clk k)) (snd (clk k)))
                   \<notin> {''starting'', ''running''}"
        by (rule poll_inactive)
      then show ?thesis
        using ih assms(1) True False
        by (simp add: listed_active_def get_agent_instances_def current_instances_def e
            selected_def Let_def poll_agent_id)
    next
      case act: True
      then obtain pid where p: "process_id inst = Some pid" "pid \<noteq> 0" "kill0 pid = Alive"
        using Cons.prems True
        by (auto simp: live_def current_instances_def e split: option.splits)
      have "status (update_instance_status inst kill0 (fst (clk k)) (snd (clk k)))
                   \<in> {''starting'', ''running''}"
        using act p by (rule poll_active)
      then show ?thesis
        using ih assms(1) True act
        by (simp add: listed_active_def get_agent_instances_def current_instances_def e
            selected_def Let_def poll_agent_id)
    qed
  qed
qed

text \<open>
  A scale-up with fresh ids appends its instances to the registry; the first step of
  the stop tasks turns exactly the chosen instances to stopping.
\<close>

lemma update_fresh_key:
  "k \<notin> fst ` set al \<Longrightarrow> AList.update k v al = al @ [(k, v)]"
  by (induction al) auto

lemma deploy_loop_append:
  assumes "distinct js"
    and "\<forall>i \<in> set js. scale_instance_id a (env_ts (envs i)) i \<notin> fst ` set reg"
    and "\<forall>i \<in> set js. env_pid (envs i) \<noteq> None"
  shows "deploy_loop a deployment envs js reg
           = (reg @ map (new_entry a deployment envs) js, True)"
  using assms
proof (induction js arbitrary: reg)
  case Nil
  show ?case by simp
next
  case (Cons i js)
  obtain pid where pid: "env_pid (envs i) = Some pid" using Cons.prems(3) by auto
  define iid where "iid = scale_instance_id a (env_ts (envs i)) i"
  have fresh: "iid \<notin> fst ` set reg" using Cons.prems(2) by (simp add: iid_def)
  have dep: "deploy_agent_instance iid deployment (envs i)
               = Some (snd (new_entry a deployment envs i))"
    by (simp add: deploy_agent_instance_def new_entry_def pid iid_def)
  have ne: "new_entry a deployment envs i = (iid, snd (new_entry a deployment envs i))"
    by (simp add: new_entry_def iid_def)
  have upd: "AList.update iid (snd (new_entry a deployment envs i)) reg
               = reg @ [new_entry a deployment envs i]"
    using update_fresh_key [OF fresh] ne by simp
  have rest: "\<forall>j \<in> set js. scale_instance_id a (env_ts (envs j)) j
                \<notin> fst ` set (reg @ [new_entry a deployment envs i])"
  proof
    fix j assume j: "j \<in> set js"
    then have "j \<noteq> i" using Cons.prems(1) by auto
    then have "scale_instance_id a (env_ts (envs j)) j \<noteq> iid"
      using scale_instance_id_index [of a "env_ts (envs j)" j "env_ts (envs i)" i]
      by (auto simp: iid_def)
    moreover have "scale_instance_id a (env_ts (envs j)) j \<notin> fst ` set reg"
      using Cons.prems(2) j by simp
    moreover have "fst (new_entry a deployment envs i) = iid"
      by (simp add: new_entry_def iid_def)
    ultimately show "scale_instance_id a (env_ts (envs j)) j
                \<notin> fst ` set (reg @ [new_entry a deployment envs i])"
      by auto
  qed
  have ih: "deploy_loop a deployment envs js (reg @ [new_entry a deployment envs i])
          = ((reg @ [new_entry a deployment envs i]) @ map (new_entry a deployment envs) js, True)"
    using Cons.IH [OF _ rest] Cons.prems(1,3) by simp
  have "deploy_loop a deployment envs (i # js) reg
          = deploy_loop a deployment envs js
              (AList.update iid (snd (new_entry a deployment envs i)) reg)"
    using dep by (simp add: iid_def)
  then show ?case using ih upd by simp
qed

lemma current_instances_append:
  "current_instances (reg @ reg') a = current_instances reg a @ current_instances reg' a"
  by (simp add: current_instances_def)

lemma current_instances_new:
  "dep_agent_id deployment = a \<Longrightarrow>
   current_instances (map (new_entry a deployment envs) js) a
     = map (\<lambda>i. snd (new_entry a deployment envs i)) js"
  by (induction js) (simp_all add: current_instances_def new_entry_def)

lemma stop_mark_map:
  "distinct (map fst reg) \<Longrightarrow>
   stop_mark reg iid =
     map (\<lambda>(k, inst). if k = iid then (k, inst\<lparr>status := ''stopping''\<rparr>) else (k, inst)) reg"
proof (induction reg)
  case Nil
  show ?case by (simp add: stop_mark_def)
next
  case (Cons e reg)
  obtain k inst where e: "e = (k, inst)" by (cases e)
  have d: "distinct (map fst reg)" "k \<notin> fst ` set reg" using Cons.prems by (auto simp: e)
  show ?case
  proof (cases "k = iid")
    case True
    have "map (\<lambda>(k, inst). if k = iid then (k, inst\<lparr>status := ''stopping''\<rparr>) else (k, inst)) reg
           = reg"
      using d(2) True by (intro map_idI) force
    then show ?thesis using True by (simp add: stop_mark_def e)
  next
    case False
    then show ?thesis
      using Cons.IH [OF d(1)] by (simp add: stop_mark_def e split: option.splits)
  qed
qed

lemma stop_marks_map:
  "distinct (map fst reg) \<Longrightarrow>
   foldl stop_mark reg ids =
     map (\<lambda>(k, inst). if k \<in> set ids then (k, inst\<lparr>status := ''stopping''\<rparr>) else (k, inst))
       reg"
proof (induction ids arbitrary: reg)
  case Nil
  show ?case by simp
next
  case (Cons i ids)
  have m: "stop_mark reg i =
     map (\<lambda>(k, inst). if k = i then (k, inst\<lparr>status := ''stopping''\<rparr>) else (k, inst)) reg"
    using Cons.prems by (rule stop_mark_map)
  have d: "distinct (map fst (stop_mark reg i))"
  proof -
    have "map fst (stop_mark reg i) = map fst reg"
      unfolding m by (induction reg) auto
    then show ?thesis using Cons.prems by simp
  qed
  have "foldl stop_mark (stop_mark reg i) ids =
     map (\<lambda>(k, inst). if k \<in> set ids then (k, inst\<lparr>status := ''stopping''\<rparr>) else (k, inst))
       (stop_mark reg i)"
    using Cons.IH [OF d] .
  also have "\<dots> =
     map (\<lambda>(k, inst). if k \<in> set (i # ids) then (k, inst\<lparr>status := ''stopping''\<rparr>)
                       else (k, inst)) reg"
    unfolding m by (induction reg) auto
  finally show ?case by simp
qed

lemma length_remove_taken:
  assumes "distinct xs"
  shows "length (filter (\<lambda>x. x \<notin> set (take m (sort_key f xs))) xs) = length xs - m"
proof -
  define A where "A = set (take m (sort_key f xs))"
  have sub: "A \<subseteq> set xs"
    unfolding A_def by (metis set_sort set_take_subset)
  have "distinct (take m (sort_key f xs))" using assms by simp
  then have cA: "card A = min m (length xs)"
    unfolding A_def by (simp add: distinct_card min.commute)
  have "length (filter (\<lambda>x. x \<notin> A) xs) = card ({x. x \<notin> A} \<inter> set xs)"
    using assms by (rule distinct_length_filter)
  also have "{x. x \<notin> A} \<inter> set xs = set xs - A" by auto
  also have "card (set xs - A) = card (set xs) - card A"
    using sub by (intro card_Diff_subset) (auto intro: finite_subset)
  also have "\<dots> = length xs - m"
    using assms cA by (simp add: distinct_card)
  finally show ?thesis by (simp add: A_def)
qed

lemma registry_ids:
  "list_all (\<lambda>(k, inst). instance_id inst = k) reg \<Longrightarrow>
   map instance_id (map snd reg) = map fst reg"
  by (induction reg) auto

lemma current_distinct_ids:
  assumes "registry_ok reg"
  shows "distinct (map instance_id (current_instances reg a))"
proof -
  have ok: "distinct (map fst reg)" "list_all (\<lambda>(k, inst). instance_id inst = k) reg"
    using assms by (simp_all add: registry_ok_def)
  have "map instance_id (map snd reg) = map fst reg"
    using ok(2) by (rule registry_ids)
  then have "distinct (map instance_id (map snd reg))"
    using ok(1) by (simp only:)
  then show ?thesis
    unfolding current_instances_def by (rule distinct_map_filter)
qed

lemma current_after_stop_marks:
  "list_all (\<lambda>(k, inst). instance_id inst = k) reg \<Longrightarrow>
   current_instances
     (map (\<lambda>(k, inst). if k \<in> S then (k, inst\<lparr>status := ''stopping''\<rparr>) else (k, inst)) reg) a
   = filter (\<lambda>inst. instance_id inst \<notin> S) (current_instances reg a)"
  by (induction reg) (auto simp: current_instances_def)

lemma listed_after_stops:
  assumes "a \<noteq> []" and "registry_ok reg" and "live reg a kill0"
  shows "listed_active
           (foldl stop_mark reg
              (map instance_id (instances_to_stop (current_instances reg a) m))) a kill0 clk
         = length (current_instances reg a) - m"
proof -
  define cur where "cur = current_instances reg a"
  define stop where "stop = instances_to_stop cur m"
  define reg1 where "reg1 = foldl stop_mark reg (map instance_id stop)"
  have ok: "distinct (map fst reg)" "list_all (\<lambda>(k, inst). instance_id inst = k) reg"
    using assms(2) by (simp_all add: registry_ok_def)
  have reg1: "reg1 = map (\<lambda>(k, inst). if k \<in> set (map instance_id stop)
                             then (k, inst\<lparr>status := ''stopping''\<rparr>) else (k, inst)) reg"
    unfolding reg1_def using ok(1) by (rule stop_marks_map)
  have cur1: "current_instances reg1 a
                = filter (\<lambda>inst. instance_id inst \<notin> set (map instance_id stop)) cur"
    unfolding reg1 cur_def using ok(2) by (rule current_after_stop_marks)
  have dids: "distinct (map instance_id cur)"
    unfolding cur_def using assms(2) by (rule current_distinct_ids)
  then have dcur: "distinct cur" and inj: "inj_on instance_id (set cur)"
    by (simp_all add: distinct_map)
  have sub: "set stop \<subseteq> set cur"
    unfolding stop_def instances_to_stop_def by (metis set_sort set_take_subset)
  have "filter (\<lambda>inst. instance_id inst \<notin> set (map instance_id stop)) cur
          = filter (\<lambda>inst. inst \<notin> set stop) cur"
  proof (rule filter_cong [OF refl])
    fix x assume x: "x \<in> set cur"
    show "(instance_id x \<notin> set (map instance_id stop)) = (x \<notin> set stop)"
      using inj x sub by (auto dest: inj_onD)
  qed
  then have len: "length (current_instances reg1 a) = length cur - m"
    using cur1 length_remove_taken [OF dcur, of m inst_started_at]
    by (simp add: stop_def instances_to_stop_def)
  have "live reg1 a kill0"
    using assms(3) unfolding live_def cur1 cur_def [symmetric]
    by (simp add: list_all_iff)
  then have "listed_active reg1 a kill0 clk = length (current_instances reg1 a)"
    using assms(1) by (intro listed_active_count)
  then show ?thesis using len by (simp add: reg1_def stop_def cur_def)
qed

lemma listed_after_deploys:
  assumes "a \<noteq> []" and "live reg a kill0" and "deploys_ok reg a envs kill0 n"
    and "dep_agent_id deployment = a"
  shows "deploy_loop a deployment envs [0..<n] reg
           = (reg @ map (new_entry a deployment envs) [0..<n], True)
         \<and> listed_active (reg @ map (new_entry a deployment envs) [0..<n]) a kill0 clk
             = length (current_instances reg a) + n"
proof -
  have ok: "\<forall>i \<in> set [0..<n]. scale_instance_id a (env_ts (envs i)) i \<notin> fst ` set reg"
      "\<forall>i \<in> set [0..<n]. env_pid (envs i) \<noteq> None"
      "\<forall>i \<in> set [0..<n]. \<exists>pid. env_pid (envs i) = Some pid \<and> pid \<noteq> 0 \<and> kill0 pid = Alive"
    using assms(3) by (auto simp: deploys_ok_def list_all_iff split: option.splits)
  have loop: "deploy_loop a deployment envs [0..<n] reg
           = (reg @ map (new_entry a deployment envs) [0..<n], True)"
    using ok(1,2) by (intro deploy_loop_append) simp_all
  have cur: "current_instances (reg @ map (new_entry a deployment envs) [0..<n]) a
           = current_instances reg a @ map (\<lambda>i. snd (new_entry a deployment envs i)) [0..<n]"
    using assms(4) by (simp add: current_instances_append current_instances_new)
  have "list_all (\<lambda>inst. case process_id inst of
                         None \<Rightarrow> False
                       | Some pid \<Rightarrow> pid \<noteq> 0 \<and> kill0 pid = Alive)
          (map (\<lambda>i. snd (new_entry a deployment envs i)) [0..<n])"
    using ok(3) by (auto simp: list_all_iff new_entry_def)
  then have "live (reg @ map (new_entry a deployment envs) [0..<n]) a kill0"
    using assms(2) unfolding live_def cur by simp
  then have "listed_active (reg @ map (new_entry a deployment envs) [0..<n]) a kill0 clk
             = length (current_instances (reg @ map (new_entry a deployment envs) [0..<n]) a)"
    using assms(1) by (intro listed_active_count)
  then show ?thesis using loop cur by simp
qed

text \<open>
  C3, as stated, fails for a scale-down: \<open>scale_agent\<close> only hands the instances to stop
  to background tasks and returns with the registry unchanged, so the listing that
  follows immediately still shows the previous number of starting or running
  instances (here 3 for the target 2).
\<close>

theorem scale_down_listing_counterexample:
  "(case scale_agent example_registry Map.empty ''a1'' 2 example_envs of
      (reg', tasks, res) \<Rightarrow>
        res = Inr (scale_response ''a1'' 3 2) \<and> tasks = [''i1''] \<and> reg' = example_registry
        \<and> listed_active reg' ''a1'' (\<lambda>pid. Alive) (\<lambda>k. (40000000, 40000000)) = 3)"
proof -
  have cur: "current_instances example_registry ''a1''
     = [instance_at ''i3'' 30000000, instance_at ''i1'' 10000000, instance_at ''i2'' 20000000]"
    by (simp add: current_instances_def example_registry_def instance_at_def
        example_instance_def)
  have sc: "scale_agent example_registry Map.empty ''a1'' 2 example_envs
              = (example_registry, [''i1''], Inr (scale_response ''a1'' 3 2))"
    by (simp add: scale_agent_def cur instances_to_stop_def instance_at_def Let_def)
  have "listed_active example_registry ''a1'' (\<lambda>pid. Alive) (\<lambda>k. (40000000, 40000000)) = 3"
    by (simp add: listed_active_def get_agent_instances_def example_registry_def
        instance_at_def example_instance_def selected_def update_instance_status_def Let_def)
  then show ?thesis using sc by simp
qed

text \<open>
  C3, amended. Let the agent id be non-empty, the registry well formed, and the processes
  of the agent's starting and running instances alive. For a target that is not below
  the current count, if the agent exists, the deployments succeed with live processes
  and their ids are not yet in the registry, then \<open>scale_agent\<close> succeeds and the listing
  filtered to starting and running has exactly \<open>target\<close> entries. For a target below
  the current count, \<open>scale_agent\<close> succeeds, leaves the registry unchanged and schedules
  \<open>current - target\<close> stops: the filtered listing has \<open>current\<close> entries when it
  returns, and exactly \<open>target\<close> entries once each scheduled stop has marked its
  instance as stopping.
\<close>

theorem scale_then_list:
  assumes "a \<noteq> []" and "registry_ok reg" and "live reg a kill0" and "0 \<le> target"
  shows "(int (length (current_instances reg a)) \<le> target
          \<and> (int (length (current_instances reg a)) < target \<longrightarrow> agents a \<noteq> None)
          \<and> deploys_ok reg a envs kill0 (nat (target - int (length (current_instances reg a))))
          \<longrightarrow> (case scale_agent reg agents a target envs of
                 (reg', tasks, res) \<Rightarrow>
                   res = Inr (scale_response a (int (length (current_instances reg a))) target)
                   \<and> tasks = []
                   \<and> listed_active reg' a kill0 clk = nat target))
         \<and> (target < int (length (current_instances reg a))
          \<longrightarrow> (case scale_agent reg agents a target envs of
                 (reg', tasks, res) \<Rightarrow>
                   res = Inr (scale_response a (int (length (current_instances reg a))) target)
                   \<and> reg' = reg
                   \<and> length tasks = length (current_instances reg a) - nat target
                   \<and> listed_active reg' a kill0 clk = length (current_instances reg a)
                   \<and> listed_active (foldl stop_mark reg' tasks) a kill0 clk' = nat target))"
proof -
  define cur where "cur = current_instances reg a"
  define k where "k = length cur"
  have same: "listed_active reg a kill0 clk = k"
    using assms(1,3) by (simp add: listed_active_count k_def cur_def)
  have up: "int k \<le> target
          \<and> (int k < target \<longrightarrow> agents a \<noteq> None)
          \<and> deploys_ok reg a envs kill0 (nat (target - int k))
          \<longrightarrow> (case scale_agent reg agents a target envs of
                 (reg', tasks, res) \<Rightarrow>
                   res = Inr (scale_response a (int k) target) \<and> tasks = []
                   \<and> listed_active reg' a kill0 clk = nat target)"
  proof
    assume h: "int k \<le> target
          \<and> (int k < target \<longrightarrow> agents a \<noteq> None)
          \<and> deploys_ok reg a envs kill0 (nat (target - int k))"
    show "case scale_agent reg agents a target envs of
                 (reg', tasks, res) \<Rightarrow>
                   res = Inr (scale_response a (int k) target) \<and> tasks = []
                   \<and> listed_active reg' a kill0 clk = nat target"
    proof (cases "int k = target")
      case True
      then have "scale_agent reg agents a target envs
                   = (reg, [], Inr (scale_response a (int k) target))"
        by (simp add: scale_agent_def Let_def k_def cur_def)
      then show ?thesis using same True by auto
    next
      case False
      then have lt: "int k < target" using h by simp
      then obtain agent where ag: "agents a = Some agent" using h by auto
      define n where "n = nat (target - int k)"
      define deployment where
        "deployment = \<lparr>dep_agent_id = a, dep_project_id = ai_project_id agent,
                        dep_deployment_type = ''worker'', replicas = int n\<rparr>"
      have d: "deploys_ok reg a envs kill0 n" using h by (simp add: n_def)
      have da: "dep_agent_id deployment = a" by (simp add: deployment_def)
      note r = listed_after_deploys [OF assms(1,3) d da, of clk]
      have sc: "scale_agent reg agents a target envs
              = (reg @ map (new_entry a deployment envs) [0..<n], [],
                 Inr (scale_response a (int k) target))"
        using lt ag r assms(4)
        by (simp add: scale_agent_def Let_def k_def [symmetric] cur_def [symmetric]
            n_def [symmetric] deployment_def [symmetric])
      have "k + n = nat target" using lt by (simp add: n_def)
      then show ?thesis using sc r by (simp add: k_def cur_def)
    qed
  qed
  have down: "target < int k
          \<longrightarrow> (case scale_agent reg agents a target envs of
                 (reg', tasks, res) \<Rightarrow>
                   res = Inr (scale_response a (int k) target)
                   \<and> reg' = reg
                   \<and> length tasks = k - nat target
                   \<and> listed_active reg' a kill0 clk = k
                   \<and> listed_active (foldl stop_mark reg' tasks) a kill0 clk' = nat target)"
  proof
    assume lt: "target < int k"
    define m where "m = k - nat target"
    have n: "nat (int k - target) = m"
      using assms(4) lt by (simp add: m_def nat_diff_distrib')
    have sc: "scale_agent reg agents a target envs =
           (reg, map instance_id (instances_to_stop cur m),
            Inr (scale_response a (int k) target))"
      using assms(4) lt n
      by (simp add: scale_agent_def Let_def k_def [symmetric] cur_def [symmetric])
    have len: "length (map instance_id (instances_to_stop cur m)) = m"
      by (simp add: instances_to_stop_def m_def k_def)
    have "listed_active (foldl stop_mark reg (map instance_id (instances_to_stop cur m)))
            a kill0 clk' = k - m"
      using listed_after_stops [OF assms(1,2,3), of m clk'] by (simp add: cur_def k_def)
    moreover have "k - m = nat target" using lt assms(4) by (simp add: m_def)
    ultimately show "case scale_agent reg agents a target envs of
                 (reg', tasks, res) \<Rightarrow>
                   res = Inr (scale_response a (int k) target)
                   \<and> reg' = reg
                   \<and> length tasks = k - nat target
                   \<and> listed_active reg' a kill0 clk = k
                   \<and> listed_active (foldl stop_mark reg' tasks) a kill0 clk' = nat target"
      using sc len same by (simp add: m_def)
  qed
  show ?thesis using up down unfolding k_def cur_def by blast
qed

theorem scale_then_list_witness:
  "''a1'' \<noteq> [] \<and> registry_ok example_registry
   \<and> live example_registry ''a1'' (\<lambda>pid. Alive)
   \<and> deploys_ok example_registry ''a1'' example_envs (\<lambda>pid. Alive) 2
   \<and> (case scale_agent example_registry [''a1'' \<mapsto> example_agent] ''a1'' 5 example_envs of
        (reg', tasks, res) \<Rightarrow>
          res = Inr (scale_response ''a1'' 3 5) \<and> tasks = []
          \<and> listed_active reg' ''a1'' (\<lambda>pid. Alive) (\<lambda>k. (40000000, 40000000)) = 5)
   \<and> (case scale_agent example_registry Map.empty ''a1'' 1 example_envs of
        (reg', tasks, res) \<Rightarrow>
          reg' = example_registry \<and> length tasks = 2
          \<and> listed_active (foldl stop_mark reg' tasks) ''a1'' (\<lambda>pid. Alive)
               (\<lambda>k. (40000000, 40000000)) = 1)"
proof -
  have cur: "current_instances example_registry ''a1''
     = [instance_at ''i3'' 30000000, instance_at ''i1'' 10000000, instance_at ''i2'' 20000000]"
    by (simp add: current_instances_def example_registry_def instance_at_def
        example_instance_def)
  have h1: "''a1'' \<noteq> []" by simp
  have h2: "registry_ok example_registry"
    by (simp add: registry_ok_def example_registry_def instance_at_def)
  have h3: "live example_registry ''a1'' (\<lambda>pid. Alive)"
    by (simp add: live_def cur instance_at_def example_instance_def)
  have h4: "deploys_ok example_registry ''a1'' example_envs (\<lambda>pid. Alive) 2"
    by (simp add: deploys_ok_def example_registry_def example_envs_def scale_instance_id_def
        upt_rec [of 0] upt_rec [of 1] upt_rec [of "Suc 0"])
  have l: "int (length (current_instances example_registry ''a1'')) = 3"
    by (simp add: cur)
  show ?thesis
    using scale_then_list [OF h1 h2 h3, of 5 "[''a1'' \<mapsto> example_agent]" example_envs
            "\<lambda>k. (40000000, 40000000)" "\<lambda>k. (40000000, 40000000)"]
          scale_then_list [OF h1 h2 h3, of 1 Map.empty example_envs
            "\<lambda>k. (40000000, 40000000)" "\<lambda>k. (40000000, 40000000)"]
          h1 h2 h3 h4 l
    by (simp add: cur split: prod.splits)
qed

end
